theory Spec2Isabelle
  imports Main "HOL-Library.AList"
begin

section \<open>Strings of the runtime\<close>

text \<open>
  A JavaScript string is modelled by the bytes of its UTF-8 encoding (\<^typ>\<open>string\<close>).
  The source never measures a string, so the unit does not show; the model covers
  well-formed strings (no lone surrogate).
\<close>

definition is_ascii :: "char \<Rightarrow> bool" where
  "is_ascii c = (of_char c < (128::nat))"

definition in_range :: "nat \<Rightarrow> nat \<Rightarrow> char \<Rightarrow> bool" where
  "in_range lo hi c = (lo \<le> of_char c \<and> of_char c \<le> hi)"

definition lower_char :: "char \<Rightarrow> char" where
  "lower_char c =
     (case map_of (zip ''ABCDEFGHIJKLMNOPQRSTUVWXYZ'' ''abcdefghijklmnopqrstuvwxyz'') c of
        Some l \<Rightarrow> l
      | None \<Rightarrow> c)"

text \<open>
  \<open>String.prototype.toLowerCase\<close>. On a string of ASCII characters it lowers the
  letters A to Z; on any other string it is the runtime's Unicode case mapping, the
  first argument.
\<close>

definition toLowerCase :: "(string \<Rightarrow> string) \<Rightarrow> string \<Rightarrow> string" where
  "toLowerCase unicode_lower s =
     (if list_all is_ascii s then map lower_char s else unicode_lower s)"

subsection \<open>Reading bytes as text: \<open>buffer.toString('utf8')\<close>\<close>

text \<open>
  The UTF-8 decoder of the runtime, on the bytes of a file. A well-formed sequence is
  kept as it is. A byte that cannot start a sequence, and a sequence broken off by a
  byte outside the range expected next or by the end of the input, give one U+FFFD
  (bytes EF BF BD); decoding goes on at the byte that broke the sequence.
  \<open>continuation_ranges\<close> are the ranges of the bytes that must follow a lead byte;
  \<open>match_tail\<close> counts how many of them do, and tells whether all did.
\<close>

abbreviation replacement :: string where
  "replacement \<equiv> [CHR 0xEF, CHR 0xBF, CHR 0xBD]"

definition continuation_ranges :: "char \<Rightarrow> (nat \<times> nat) list option" where
  "continuation_ranges b =
     (if in_range 0xC2 0xDF b then Some [(0x80, 0xBF)]
      else if in_range 0xE0 0xEF b then
        Some [(if b = CHR 0xE0 then 0xA0 else 0x80, if b = CHR 0xED then 0x9F else 0xBF),
              (0x80, 0xBF)]
      else if in_range 0xF0 0xF4 b then
        Some [(if b = CHR 0xF0 then 0x90 else 0x80, if b = CHR 0xF4 then 0x8F else 0xBF),
              (0x80, 0xBF), (0x80, 0xBF)]
      else None)"

fun match_tail :: "(nat \<times> nat) list \<Rightarrow> string \<Rightarrow> nat \<times> bool" where
  "match_tail [] s = (0, True)"
| "match_tail (r # rs) [] = (0, False)"
| "match_tail (r # rs) (c # s) =
     (if in_range (fst r) (snd r) c then
        (case match_tail rs s of (k, complete) \<Rightarrow> (Suc k, complete))
      else (0, False))"

function utf8_decode :: "string \<Rightarrow> string" where
  "utf8_decode [] = []"
| "utf8_decode (b # s) =
     (if is_ascii b then b # utf8_decode s
      else
        (case continuation_ranges b of
           None \<Rightarrow> replacement @ utf8_decode s
         | Some rs \<Rightarrow>
             (if snd (match_tail rs s) then
                b # take (fst (match_tail rs s)) s
                @ utf8_decode (drop (fst (match_tail rs s)) s)
              else replacement @ utf8_decode (drop (fst (match_tail rs s)) s))))"
  by pat_completeness auto
termination
  by (relation "measure length") auto

subsection \<open>What \<open>https.request\<close> accepts\<close>

text \<open>
  \<open>https.request\<close> throws on a path with a character outside U+0021 to U+00FF, and
  on a header value with a character other than the tab and U+0020 to U+007E and
  U+0080 to U+00FF. \<open>latin1_text ok s\<close> says that every character of \<open>s\<close> is an ASCII
  character that \<open>ok\<close> accepts or lies in U+0080 to U+00FF (bytes C2 or C3 and one
  continuation byte).
\<close>

definition header_char :: "char \<Rightarrow> bool" where
  "header_char c = (c = CHR 0x09 \<or> in_range 0x20 0x7E c)"

definition path_char :: "char \<Rightarrow> bool" where
  "path_char c = in_range 0x21 0x7F c"

fun latin1_text :: "(char \<Rightarrow> bool) \<Rightarrow> string \<Rightarrow> bool" where
  "latin1_text ok [] = True"
| "latin1_text ok [c] = (is_ascii c \<and> ok c)"
| "latin1_text ok (c # d # s) =
     (if is_ascii c then ok c \<and> latin1_text ok (d # s)
      else (c = CHR 0xC2 \<or> c = CHR 0xC3) \<and> in_range 0x80 0xBF d \<and> latin1_text ok s)"

definition endsWith :: "string \<Rightarrow> string \<Rightarrow> bool" where
  "endsWith s suf = (length suf \<le> length s \<and> drop (length s - length suf) s = suf)"

definition is_digit :: "char \<Rightarrow> bool" where
  "is_digit c = (c \<in> set ''0123456789'')"

definition digit_char :: "nat \<Rightarrow> char" where
  "digit_char d = ''0123456789'' ! d"

text \<open>Template-literal conversion of a non-negative integer, as in \<open>`${response.statusCode}`\<close>.\<close>

fun string_of_nat :: "nat \<Rightarrow> string" where
  "string_of_nat n =
     (if n < 10 then [digit_char n] else string_of_nat (n div 10) @ [digit_char (n mod 10)])"

subsection \<open>\<open>path.basename\<close> and \<open>path.extname\<close> (POSIX flavour of Node.js)\<close>

text \<open>
  \<open>path.basename(p)\<close> drops trailing slashes and returns what follows the last
  remaining slash. \<open>path.extname(p)\<close> returns that component from its last dot on,
  and the empty string when the component has no dot, starts with its only dot, or is
  \<open>..\<close>.
\<close>

definition strip_trailing_slashes :: "string \<Rightarrow> string" where
  "strip_trailing_slashes p = rev (dropWhile (\<lambda>c. c = CHR ''/'') (rev p))"

definition basename :: "string \<Rightarrow> string" where
  "basename p = rev (takeWhile (\<lambda>c. c \<noteq> CHR ''/'') (rev (strip_trailing_slashes p)))"

definition extname :: "string \<Rightarrow> string" where
  "extname p =
     (let b = basename p;
          ext = rev (takeWhile (\<lambda>c. c \<noteq> CHR ''.'') (rev b))
      in if CHR ''.'' \<notin> set b then []
         else if length ext + 1 = length b then []
         else if b = ''..'' then []
         else CHR ''.'' # ext)"

subsection \<open>\<open>encodeURIComponent\<close>\<close>

definition hex_upper :: "nat \<Rightarrow> char" where
  "hex_upper d = ''0123456789ABCDEF'' ! d"

definition uri_unreserved :: "char \<Rightarrow> bool" where
  "uri_unreserved c =
     (c \<in> set ''ABCDEFGHIJKLMNOPQRSTUVWXYZabcdefghijklmnopqrstuvwxyz0123456789-_.!~*'()'')"

definition encode_byte :: "char \<Rightarrow> string" where
  "encode_byte c =
     (if uri_unreserved c then [c]
      else [CHR ''%'', hex_upper (of_char c div 16), hex_upper (of_char c mod 16)])"

definition encodeURIComponent :: "string \<Rightarrow> string" where
  "encodeURIComponent s = concat (map encode_byte s)"

section \<open>JSON value trees\<close>

text \<open>
  The value tree that \<open>yaml.load\<close> and \<open>JSON.parse\<close> build and \<open>JSON.stringify\<close>
  reads. \<open>JUndefined\<close> is the JavaScript value \<open>undefined\<close>. The type \<open>'n\<close> stands
  for the runtime's Number (an IEEE double, with NaN and the infinities); its
  conversions from and to text are parameters of the functions below. An object is the
  list of its own properties in enumeration order.
\<close>

datatype 'n json =
    JUndefined
  | JNull
  | JBool bool
  | JNum 'n
  | JStr string
  | JArr "'n json list"
  | JObj "(string \<times> 'n json) list"

abbreviation BSL :: char where "BSL \<equiv> CHR 0x5C"
abbreviation DQ :: char where "DQ \<equiv> CHR 0x22"
abbreviation NL :: char where "NL \<equiv> CHR 0x0A"

subsection \<open>\<open>JSON.stringify(value, null, 2)\<close>\<close>

definition hex_lower :: "nat \<Rightarrow> char" where
  "hex_lower d = ''0123456789abcdef'' ! d"

definition quote_char :: "char \<Rightarrow> string" where
  "quote_char c =
     (if c = CHR 0x08 then [BSL, CHR ''b'']
      else if c = CHR 0x09 then [BSL, CHR ''t'']
      else if c = NL then [BSL, CHR ''n'']
      else if c = CHR 0x0C then [BSL, CHR ''f'']
      else if c = CHR 0x0D then [BSL, CHR ''r'']
      else if c = DQ then [BSL, DQ]
      else if c = BSL then [BSL, BSL]
      else if of_char c < (32::nat) then
        [BSL, CHR ''u'', CHR ''0'', CHR ''0'',
         hex_lower (of_char c div 16), hex_lower (of_char c mod 16)]
      else [c])"

definition QuoteJSONString :: "string \<Rightarrow> string" where
  "QuoteJSONString s = DQ # concat (map quote_char s) @ [DQ]"

fun join :: "string \<Rightarrow> string list \<Rightarrow> string" where
  "join sep [] = []"
| "join sep [x] = x"
| "join sep (x # y # ys) = x @ sep @ join sep (y # ys)"

text \<open>
  \<open>SerializeJSONProperty\<close> with the gap of two spaces; \<open>ind\<close> is the current
  indentation. The result \<open>None\<close> is \<open>undefined\<close>: an \<open>undefined\<close> array element is
  written \<open>null\<close>, an \<open>undefined\<close> property is left out. \<open>nts n\<close> is the text of a
  finite number and \<open>None\<close> for NaN and the infinities, which are written \<open>null\<close>.
\<close>

fun SerializeJSONProperty :: "('n \<Rightarrow> string option) \<Rightarrow> string \<Rightarrow> 'n json \<Rightarrow> string option"
and SerializeJSONElements :: "('n \<Rightarrow> string option) \<Rightarrow> string \<Rightarrow> 'n json list \<Rightarrow> string list"
and SerializeJSONMembers :: "('n \<Rightarrow> string option) \<Rightarrow> string \<Rightarrow> (string \<times> 'n json) list \<Rightarrow> string list"
where
  "SerializeJSONProperty nts ind JUndefined = None"
| "SerializeJSONProperty nts ind JNull = Some ''null''"
| "SerializeJSONProperty nts ind (JBool b) = Some (if b then ''true'' else ''false'')"
| "SerializeJSONProperty nts ind (JNum n) =
     Some (case nts n of None \<Rightarrow> ''null'' | Some t \<Rightarrow> t)"
| "SerializeJSONProperty nts ind (JStr s) = Some (QuoteJSONString s)"
| "SerializeJSONProperty nts ind (JArr xs) =
     (let partial = SerializeJSONElements nts (ind @ ''  '') xs
      in Some (if partial = [] then ''[]''
               else ''['' @ [NL] @ ind @ ''  '' @ join ('','' @ [NL] @ ind @ ''  '') partial
                    @ [NL] @ ind @ '']''))"
| "SerializeJSONProperty nts ind (JObj ms) =
     (let partial = SerializeJSONMembers nts (ind @ ''  '') ms
      in Some (if partial = [] then ''{}''
               else ''{'' @ [NL] @ ind @ ''  '' @ join ('','' @ [NL] @ ind @ ''  '') partial
                    @ [NL] @ ind @ ''}''))"
| "SerializeJSONElements nts ind [] = []"
| "SerializeJSONElements nts ind (x # xs) =
     (case SerializeJSONProperty nts ind x of None \<Rightarrow> ''null'' | Some t \<Rightarrow> t)
     # SerializeJSONElements nts ind xs"
| "SerializeJSONMembers nts ind [] = []"
| "SerializeJSONMembers nts ind (m # ms) =
     (case SerializeJSONProperty nts ind (snd m) of
        None \<Rightarrow> SerializeJSONMembers nts ind ms
      | Some t \<Rightarrow> (QuoteJSONString (fst m) @ '': '' @ t) # SerializeJSONMembers nts ind ms)"

definition JSON_stringify :: "('n \<Rightarrow> string option) \<Rightarrow> 'n json \<Rightarrow> string option" where
  "JSON_stringify nts v = SerializeJSONProperty nts [] v"

subsection \<open>\<open>JSON.parse\<close>\<close>

text \<open>
  A recursive-descent reader of the JSON grammar (ECMA-404): white space, the three
  literal names, numbers, strings with every escape, arrays and objects. It returns the
  value read and the text that follows it; \<open>None\<close> is the \<open>SyntaxError\<close>.
\<close>

definition is_ws :: "char \<Rightarrow> bool" where
  "is_ws c = (c = CHR '' '' \<or> c = CHR 0x09 \<or> c = NL \<or> c = CHR 0x0D)"

definition skip_ws :: "string \<Rightarrow> string" where
  "skip_ws s = dropWhile is_ws s"

definition hex_val :: "char \<Rightarrow> nat option" where
  "hex_val c =
     map_of (zip ''0123456789abcdefABCDEF''
       [0, 1, 2, 3, 4, 5, 6, 7, 8, 9, 10, 11, 12, 13, 14, 15, 10, 11, 12, 13, 14, 15]) c"

definition hex4 :: "string \<Rightarrow> nat option" where
  "hex4 s =
     (case s of
        a # b # c # d # _ \<Rightarrow>
          (case (hex_val a, hex_val b, hex_val c, hex_val d) of
             (Some x, Some y, Some z, Some w) \<Rightarrow> Some (((x * 16 + y) * 16 + z) * 16 + w)
           | _ \<Rightarrow> None)
      | _ \<Rightarrow> None)"

text \<open>The bytes of a code point; a lone surrogate is written the same way.\<close>

definition utf8 :: "nat \<Rightarrow> string" where
  "utf8 cp =
     (if cp < 0x80 then [char_of cp]
      else if cp < 0x800 then [char_of (0xC0 + cp div 64), char_of (0x80 + cp mod 64)]
      else if cp < 0x10000 then
        [char_of (0xE0 + cp div 4096), char_of (0x80 + cp div 64 mod 64),
         char_of (0x80 + cp mod 64)]
      else
        [char_of (0xF0 + cp div 262144), char_of (0x80 + cp div 4096 mod 64),
         char_of (0x80 + cp div 64 mod 64), char_of (0x80 + cp mod 64)])"

definition unescape :: "char \<Rightarrow> char option" where
  "unescape e =
     map_of [(DQ, DQ), (BSL, BSL), (CHR ''/'', CHR ''/''), (CHR ''b'', CHR 0x08),
             (CHR ''f'', CHR 0x0C), (CHR ''n'', NL), (CHR ''r'', CHR 0x0D),
             (CHR ''t'', CHR 0x09)] e"

definition low_surrogate :: "string \<Rightarrow> nat option" where
  "low_surrogate t =
     (case t of
        b # u # r \<Rightarrow>
          if b = BSL \<and> u = CHR ''u'' then
            (case hex4 r of
               Some lo \<Rightarrow> if 0xDC00 \<le> lo \<and> lo < 0xE000 then Some lo else None
             | None \<Rightarrow> None)
          else None
      | _ \<Rightarrow> None)"

definition prepend :: "string \<Rightarrow> (string \<times> string) option \<Rightarrow> (string \<times> string) option" where
  "prepend p r = (case r of None \<Rightarrow> None | Some (t, rest) \<Rightarrow> Some (p @ t, rest))"

text \<open>The characters of a string after its opening quote, up to the closing one.\<close>

function parse_chars :: "string \<Rightarrow> (string \<times> string) option" where
  "parse_chars [] = None"
| "parse_chars (c # s) =
     (if c = DQ then Some ([], s)
      else if c = BSL then
        (case s of
           [] \<Rightarrow> None
         | e # s' \<Rightarrow>
             if e = CHR ''u'' then
               (case hex4 s' of
                  None \<Rightarrow> None
                | Some hi \<Rightarrow>
                    (if 0xD800 \<le> hi \<and> hi < 0xDC00 then
                       (case low_surrogate (drop 4 s') of
                          Some lo \<Rightarrow>
                            prepend (utf8 (0x10000 + (hi - 0xD800) * 1024 + (lo - 0xDC00)))
                              (parse_chars (drop 10 s'))
                        | None \<Rightarrow> prepend (utf8 hi) (parse_chars (drop 4 s')))
                     else prepend (utf8 hi) (parse_chars (drop 4 s'))))
             else
               (case unescape e of
                  None \<Rightarrow> None
                | Some ch \<Rightarrow> prepend [ch] (parse_chars s')))
      else if of_char c < (32::nat) then None
      else prepend [c] (parse_chars s))"
  by pat_completeness auto
termination
  by (relation "measure length") auto

text \<open>
  A number token: \<open>-? (0 | [1-9][0-9]*) (. [0-9]+)? ([eE] [+-]? [0-9]+)?\<close>. Each
  function returns the token read so far and the rest of the text.
\<close>

definition lex_exp :: "string \<Rightarrow> string \<Rightarrow> (string \<times> string) option" where
  "lex_exp pre s =
     (case s of
        [] \<Rightarrow> Some (pre, [])
      | c # r \<Rightarrow>
          if c = CHR ''e'' \<or> c = CHR ''E'' then
            (let sg = (case r of
                         [] \<Rightarrow> []
                       | d # _ \<Rightarrow> if d = CHR ''+'' \<or> d = CHR ''-'' then [d] else []);
                 r1 = drop (length sg) r;
                 ds = takeWhile is_digit r1
             in if ds = [] then None else Some (pre @ c # sg @ ds, dropWhile is_digit r1))
          else Some (pre, s))"

definition lex_frac :: "string \<Rightarrow> string \<Rightarrow> (string \<times> string) option" where
  "lex_frac pre s =
     (case s of
        [] \<Rightarrow> lex_exp pre s
      | c # r \<Rightarrow>
          if c = CHR ''.'' then
            (let ds = takeWhile is_digit r
             in if ds = [] then None else lex_exp (pre @ c # ds) (dropWhile is_digit r))
          else lex_exp pre s)"

definition lex_int :: "string \<Rightarrow> string \<Rightarrow> (string \<times> string) option" where
  "lex_int pre s =
     (case s of
        [] \<Rightarrow> None
      | c # r \<Rightarrow>
          if c = CHR ''0'' then lex_frac (pre @ [c]) r
          else if is_digit c then
            lex_frac (pre @ c # takeWhile is_digit r) (dropWhile is_digit r)
          else None)"

definition lex_number :: "string \<Rightarrow> (string \<times> string) option" where
  "lex_number s =
     (case s of
        [] \<Rightarrow> None
      | c # r \<Rightarrow> if c = CHR ''-'' then lex_int [c] r else lex_int [] s)"

definition strip_prefix :: "string \<Rightarrow> string \<Rightarrow> string option" where
  "strip_prefix p s = (if take (length p) s = p then Some (drop (length p) s) else None)"

text \<open>
  The first argument is the runtime's conversion of a number token to a Number. The
  second bounds the number of nested calls; \<open>JSON_parse\<close> gives one more than the
  length of the text, and every call but the first has read a character. A repeated
  key overwrites the earlier value at its place, as \<open>CreateDataProperty\<close> does.
\<close>

fun parse_value :: "(string \<Rightarrow> 'n) \<Rightarrow> nat \<Rightarrow> string \<Rightarrow> ('n json \<times> string) option"
and parse_elements ::
  "(string \<Rightarrow> 'n) \<Rightarrow> nat \<Rightarrow> string \<Rightarrow> 'n json list \<Rightarrow> ('n json \<times> string) option"
and parse_members ::
  "(string \<Rightarrow> 'n) \<Rightarrow> nat \<Rightarrow> string \<Rightarrow> (string \<times> 'n json) list \<Rightarrow> ('n json \<times> string) option"
where
  "parse_value nol 0 s = None"
| "parse_value nol (Suc f) s =
     (case skip_ws s of
        [] \<Rightarrow> None
      | c # r \<Rightarrow>
          if c = CHR ''{'' then
            (case skip_ws r of
               [] \<Rightarrow> None
             | d # r' \<Rightarrow> if d = CHR ''}'' then Some (JObj [], r')
                         else parse_members nol f (d # r') [])
          else if c = CHR ''['' then
            (case skip_ws r of
               [] \<Rightarrow> None
             | d # r' \<Rightarrow> if d = CHR '']'' then Some (JArr [], r')
                         else parse_elements nol f (d # r') [])
          else if c = DQ then
            (case parse_chars r of None \<Rightarrow> None | Some (t, r') \<Rightarrow> Some (JStr t, r'))
          else if c = CHR ''-'' \<or> is_digit c then
            (case lex_number (c # r) of
               None \<Rightarrow> None
             | Some (lit, r') \<Rightarrow> Some (JNum (nol lit), r'))
          else if c = CHR ''n'' then
            (case strip_prefix ''null'' (c # r) of
               None \<Rightarrow> None | Some r' \<Rightarrow> Some (JNull, r'))
          else if c = CHR ''t'' then
            (case strip_prefix ''true'' (c # r) of
               None \<Rightarrow> None | Some r' \<Rightarrow> Some (JBool True, r'))
          else if c = CHR ''f'' then
            (case strip_prefix ''false'' (c # r) of
               None \<Rightarrow> None | Some r' \<Rightarrow> Some (JBool False, r'))
          else None)"
| "parse_elements nol 0 s acc = None"
| "parse_elements nol (Suc f) s acc =
     (case parse_value nol f s of
        None \<Rightarrow> None
      | Some (v, r) \<Rightarrow>
          (case skip_ws r of
             [] \<Rightarrow> None
           | d # r' \<Rightarrow>
               if d = CHR '','' then parse_elements nol f r' (acc @ [v])
               else if d = CHR '']'' then Some (JArr (acc @ [v]), r')
               else None))"
| "parse_members nol 0 s acc = None"
| "parse_members nol (Suc f) s acc =
     (case skip_ws s of
        [] \<Rightarrow> None
      | q # r \<Rightarrow>
          if q = DQ then
            (case parse_chars r of
               None \<Rightarrow> None
             | Some (k, r1) \<Rightarrow>
                 (case skip_ws r1 of
                    [] \<Rightarrow> None
                  | e # r2 \<Rightarrow>
                      if e = CHR '':'' then
                        (case parse_value nol f r2 of
                           None \<Rightarrow> None
                         | Some (v, r3) \<Rightarrow>
                             (case skip_ws r3 of
                                [] \<Rightarrow> None
                              | g # r4 \<Rightarrow>
                                  if g = CHR '','' then
                                    parse_members nol f r4 (AList.update k v acc)
                                  else if g = CHR ''}'' then
                                    Some (JObj (AList.update k v acc), r4)
                                  else None))
                      else None))
          else None)"

definition JSON_parse :: "(string \<Rightarrow> 'n) \<Rightarrow> string \<Rightarrow> 'n json option" where
  "JSON_parse nol s =
     (case parse_value nol (Suc (length s)) s of
        None \<Rightarrow> None
      | Some (v, r) \<Rightarrow> if skip_ws r = [] then Some v else None)"

subsection \<open>Value trees that JSON text can hold\<close>

text \<open>
  A tree is representable when it has no \<open>undefined\<close> in it, every number in it is
  finite and prints as a number token that reads back as the same number, and the keys
  of each object are distinct. NaN, the infinities and \<open>undefined\<close> are the values of
  the tree type that JSON has no text for.
\<close>

fun representable :: "('n \<Rightarrow> string option) \<Rightarrow> (string \<Rightarrow> 'n) \<Rightarrow> 'n json \<Rightarrow> bool"
and representable_elements :: "('n \<Rightarrow> string option) \<Rightarrow> (string \<Rightarrow> 'n) \<Rightarrow> 'n json list \<Rightarrow> bool"
and representable_members ::
  "('n \<Rightarrow> string option) \<Rightarrow> (string \<Rightarrow> 'n) \<Rightarrow> (string \<times> 'n json) list \<Rightarrow> bool"
where
  "representable nts nol JUndefined = False"
| "representable nts nol JNull = True"
| "representable nts nol (JBool b) = True"
| "representable nts nol (JNum n) =
     (case nts n of None \<Rightarrow> False | Some t \<Rightarrow> lex_number t = Some (t, []) \<and> nol t = n)"
| "representable nts nol (JStr s) = True"
| "representable nts nol (JArr xs) = representable_elements nts nol xs"
| "representable nts nol (JObj ms) =
     (distinct (map fst ms) \<and> representable_members nts nol ms)"
| "representable_elements nts nol [] = True"
| "representable_elements nts nol (x # xs) =
     (representable nts nol x \<and> representable_elements nts nol xs)"
| "representable_members nts nol [] = True"
| "representable_members nts nol (m # ms) =
     (representable nts nol (snd m) \<and> representable_members nts nol ms)"

text \<open>
  A bound on the nesting of calls that reading a tree back takes, and the text that may
  follow a value inside an indented document: nothing, a comma or a line break.
\<close>

fun calls :: "'n json \<Rightarrow> nat"
and calls_elements :: "'n json list \<Rightarrow> nat"
and calls_members :: "(string \<times> 'n json) list \<Rightarrow> nat"
where
  "calls (JArr xs) = Suc (calls_elements xs)"
| "calls (JObj ms) = Suc (calls_members ms)"
| "calls v = 1"
| "calls_elements [] = 0"
| "calls_elements (x # xs) = Suc (calls x + calls_elements xs)"
| "calls_members [] = 0"
| "calls_members (m # ms) = Suc (calls (snd m) + calls_members ms)"

definition delimited :: "string \<Rightarrow> bool" where
  "delimited rest = (case rest of [] \<Rightarrow> True | c # _ \<Rightarrow> c = CHR '','' \<or> c = NL)"

text \<open>
  What the reader does on the text of a value, of the elements of an array and of the
  members of an object, when that text is followed by \<open>rest\<close>.
\<close>

definition reads_value :: "('n \<Rightarrow> string option) \<Rightarrow> (string \<Rightarrow> 'n) \<Rightarrow> string \<Rightarrow> 'n json \<Rightarrow> bool" where
  "reads_value nts nol ind v =
     (\<forall>fuel s rest.
        calls v \<le> fuel \<longrightarrow> delimited rest
        \<longrightarrow> skip_ws s = the (SerializeJSONProperty nts ind v) @ rest
        \<longrightarrow> parse_value nol fuel s = Some (v, rest))"

definition reads_elements ::
  "('n \<Rightarrow> string option) \<Rightarrow> (string \<Rightarrow> 'n) \<Rightarrow> string \<Rightarrow> 'n json list \<Rightarrow> bool" where
  "reads_elements nts nol ind xs =
     (\<forall>fuel s acc close rest.
        calls_elements xs \<le> fuel
        \<longrightarrow> skip_ws s = join (CHR '','' # NL # ind) (SerializeJSONElements nts ind xs)
                          @ NL # close
        \<longrightarrow> skip_ws close = CHR '']'' # rest
        \<longrightarrow> parse_elements nol fuel s acc = Some (JArr (acc @ xs), rest))"

definition reads_members ::
  "('n \<Rightarrow> string option) \<Rightarrow> (string \<Rightarrow> 'n) \<Rightarrow> string \<Rightarrow> (string \<times> 'n json) list \<Rightarrow> bool" where
  "reads_members nts nol ind ms =
     (\<forall>fuel s acc close rest.
        calls_members ms \<le> fuel
        \<longrightarrow> distinct (map fst (acc @ ms))
        \<longrightarrow> skip_ws s = join (CHR '','' # NL # ind) (SerializeJSONMembers nts ind ms)
                          @ NL # close
        \<longrightarrow> skip_ws close = CHR ''}'' # rest
        \<longrightarrow> parse_members nol fuel s acc = Some (JObj (acc @ ms), rest))"

section \<open>The action: \<open>index.js\<close>\<close>

subsection \<open>Errors, the environment and what the action does to it\<close>

text \<open>
  A thrown value; all that the source reads of it is \<open>message\<close>. \<open>Error\<close> is what
  the source itself throws, and \<open>fs.readFileSync\<close> on a directory; \<open>TypeError\<close> is
  what \<open>Buffer.from\<close>, \<open>new URL\<close> and \<open>https.request\<close> throw.
\<close>

datatype js_error = Error string | TypeError string

fun message :: "js_error \<Rightarrow> string" where
  "message (Error m) = m"
| "message (TypeError m) = m"

datatype fs_entry = File string | Directory

record url =
  protocol :: string
  url_hostname :: string
  url_port :: string

record form_part =
  field :: string
  filename :: string
  contentType :: string
  part_body :: string

record http_request =
  req_method :: string
  hostname :: string
  port :: string
  path :: string
  headers :: "(string \<times> string) list"
  form :: "form_part list"

text \<open>How the one request ends: the response's status and body, or the \<open>error\<close> event.\<close>

datatype net_outcome = Response nat string | TransportError string

text \<open>
  Everything outside \<open>index.js\<close> that a run depends on: the file system (a file is
  its bytes), the action's inputs (\<open>core.getInput\<close>), the runtime's case mapping of
  strings that are not ASCII, js-yaml's reading of a text into its documents (or the
  message of its exception), the runtime's Number conversions, the message of the
  \<open>SyntaxError\<close> that \<open>JSON.parse\<close> throws on a text, \<open>new URL\<close>, the boundary that
  form-data draws, and the remote end.
\<close>

record 'n world =
  files :: "string \<Rightarrow> fs_entry option"
  getInput :: "string \<Rightarrow> string"
  lowerCaseUnicode :: "string \<Rightarrow> string"
  loadDocuments :: "string \<Rightarrow> string + 'n json list"
  numberToString :: "'n \<Rightarrow> string option"
  stringToNumber :: "string \<Rightarrow> 'n"
  syntaxErrorMessage :: "string \<Rightarrow> string"
  parseURL :: "string \<Rightarrow> url option"
  boundary :: string
  respond :: "http_request \<Rightarrow> net_outcome"

text \<open>
  What a run does, in order: log lines (\<open>core.info\<close>, \<open>core.error\<close>), outputs
  (\<open>core.setOutput\<close>), the failure signal (\<open>core.setFailed\<close>) and the request sent.
\<close>

datatype event =
    Info string
  | ErrorLog string
  | SetOutput string string
  | SetFailed string
  | Request http_request

text \<open>The requests sent and the outputs set in a run, in order.\<close>

fun requests :: "event list \<Rightarrow> http_request list" where
  "requests [] = []"
| "requests (Request r # es) = r # requests es"
| "requests (e # es) = requests es"

fun outputs :: "event list \<Rightarrow> (string \<times> string) list" where
  "outputs [] = []"
| "outputs (SetOutput k v # es) = (k, v) # outputs es"
| "outputs (e # es) = outputs es"

text \<open>
  Sequencing of two stages: the second runs on the first one's value, and not at all
  when the first threw; the log lines add up.
\<close>

definition and_then ::
  "event list \<times> (js_error + 'a) \<Rightarrow> ('a \<Rightarrow> event list \<times> (js_error + 'b))
     \<Rightarrow> event list \<times> (js_error + 'b)" where
  "and_then m f =
     (case snd m of
        Inl e \<Rightarrow> (fst m, Inl e)
      | Inr a \<Rightarrow> (fst m @ fst (f a), snd (f a)))"

record file_data =
  content :: string
  extension :: string
  fileName :: string
  size_bytes :: nat

record processed_file_data = file_data +
  processedContent :: "string option"
  processedFileName :: string

record upload_result =
  success :: bool
  statusCode :: nat
  data :: string
  uploadedFileName :: string

subsection \<open>\<open>readOASFile\<close>\<close>

definition readOASFile :: "'n world \<Rightarrow> string \<Rightarrow> event list \<times> (js_error + file_data)" where
  "readOASFile w filePath =
     (let log1 = [Info (''Reading OAS file from: '' @ filePath)]
      in case files w filePath of
           None \<Rightarrow> (log1, Inl (Error (''OAS file not found at path: '' @ filePath)))
         | Some Directory \<Rightarrow>
             (log1, Inl (Error ''EISDIR: illegal operation on a directory, read''))
         | Some (File bytes) \<Rightarrow>
             (let fileExtension = toLowerCase (lowerCaseUnicode w) (extname filePath);
                  fileName = basename filePath;
                  fileContent = utf8_decode bytes
              in (log1 @ [Info (''File found: '' @ fileName @ '' (''
                                @ string_of_nat (length bytes) @ '' bytes, ''
                                @ fileExtension @ '')'')],
                  Inr \<lparr>content = fileContent, extension = fileExtension,
                       fileName = fileName, size_bytes = length bytes\<rparr>)))"

subsection \<open>\<open>convertYamlToJson\<close>\<close>

text \<open>
  js-yaml's \<open>load\<close>: \<open>undefined\<close> when the text holds no document, the document when
  it holds one, an exception when it holds more.
\<close>

definition yaml_load :: "'n world \<Rightarrow> string \<Rightarrow> string + 'n json" where
  "yaml_load w input =
     (case loadDocuments w input of
        Inl msg \<Rightarrow> Inl msg
      | Inr [] \<Rightarrow> Inr JUndefined
      | Inr [d] \<Rightarrow> Inr d
      | Inr _ \<Rightarrow> Inl ''expected a single document in the stream, but found more'')"

text \<open>The result \<open>Inr None\<close> is the return value \<open>undefined\<close>.\<close>

definition convertYamlToJson :: "'n world \<Rightarrow> string \<Rightarrow> js_error + string option" where
  "convertYamlToJson w yamlContent =
     (case yaml_load w yamlContent of
        Inl msg \<Rightarrow> Inl (Error (''Failed to parse YAML content: '' @ msg))
      | Inr parsedYaml \<Rightarrow> Inr (JSON_stringify (numberToString w) parsedYaml))"

subsection \<open>\<open>processOASFile\<close>\<close>

text \<open>\<open>fileName.replace(/\.(yaml|yml)$/, '.json')\<close>: the pattern is case-sensitive.\<close>

definition replace_yaml_ext :: "string \<Rightarrow> string" where
  "replace_yaml_ext name =
     (if endsWith name ''.yaml'' then take (length name - 5) name @ ''.json''
      else if endsWith name ''.yml'' then take (length name - 4) name @ ''.json''
      else name)"

definition processOASFile ::
  "'n world \<Rightarrow> file_data \<Rightarrow> event list \<times> (js_error + processed_file_data)" where
  "processOASFile w fileData =
     (if extension fileData = ''.yaml'' \<or> extension fileData = ''.yml'' then
        (case convertYamlToJson w (content fileData) of
           Inl e \<Rightarrow> ([Info ''Converting YAML to JSON format''], Inl e)
         | Inr processed \<Rightarrow>
             ([Info ''Converting YAML to JSON format''],
              Inr (file_data.extend fileData
                     (processed_file_data.fields processed
                        (replace_yaml_ext (fileName fileData))))))
      else if extension fileData = ''.json'' then
        (case JSON_parse (stringToNumber w) (content fileData) of
           None \<Rightarrow>
             ([Info ''File is already in JSON format''],
              Inl (Error (''Invalid JSON format: ''
                          @ syntaxErrorMessage w (content fileData))))
         | Some parsed \<Rightarrow>
             ([Info ''File is already in JSON format''],
              Inr (file_data.extend fileData
                     (processed_file_data.fields (Some (content fileData))
                        (fileName fileData)))))
      else
        ([], Inl (Error (''Unsupported file format: '' @ extension fileData
                         @ ''. Supported formats: .yaml, .yml, .json''))))"

subsection \<open>\<open>uploadToBrainfish\<close>\<close>

definition buffer_type_error :: string where
  "buffer_type_error =
     ''The first argument must be of type string or an instance of Buffer, ArrayBuffer, or Array or an Array-like Object. Received undefined''"

text \<open>
  The first half of the promise's executor, up to the request options: \<open>Buffer.from(s,
  'utf8')\<close> gives the bytes of \<open>s\<close>, which model \<open>s\<close>, and throws on \<open>undefined\<close>;
  the multipart body is kept as the list of its parts; the port is kept as text.
\<close>

definition requestOptions ::
  "'n world \<Rightarrow> processed_file_data \<Rightarrow> string \<Rightarrow> string \<Rightarrow> string
     \<Rightarrow> event list \<times> (js_error + http_request)" where
  "requestOptions w fileData apiToken catalogId baseUrl =
     (let log1 = [Info (''Uploading '' @ processedFileName fileData
                        @ '' to Brainfish catalog: '' @ catalogId)]
      in case processedContent fileData of
           None \<Rightarrow> (log1, Inl (TypeError buffer_type_error))
         | Some fileBuffer \<Rightarrow>
             (let parts = [\<lparr>field = ''file'', filename = processedFileName fileData,
                            contentType = ''application/json'', part_body = fileBuffer\<rparr>];
                  formHeaders =
                    [(''content-type'', ''multipart/form-data; boundary='' @ boundary w)]
              in case parseURL w baseUrl of
                   None \<Rightarrow> (log1, Inl (TypeError ''Invalid URL''))
                 | Some u \<Rightarrow>
                     (let options =
                            \<lparr>req_method = ''POST'',
                             hostname = url_hostname u,
                             port = (if url_port u \<noteq> [] then url_port u
                                     else if protocol u = ''https:'' then ''443'' else ''80''),
                             path = ''/api/catalogs.upload?catalogId=''
                                    @ encodeURIComponent catalogId,
                             headers = formHeaders
                                       @ [(''Authorization'', ''Bearer '' @ apiToken)],
                             form = parts\<rparr>
                      in (log1 @ [Info (''Making request to: '' @ baseUrl @ path options)],
                          Inr options))))"

text \<open>
  The callbacks of the request: the \<open>end\<close> of a response, or the \<open>error\<close> event.
  \<open>Inr\<close> is \<open>resolve\<close>, \<open>Inl\<close> is \<open>reject\<close>.
\<close>

definition settle ::
  "processed_file_data \<Rightarrow> net_outcome \<Rightarrow> event list \<times> (js_error + upload_result)" where
  "settle fileData outcome =
     (case outcome of
        Response status responseData \<Rightarrow>
          ([Info (''Response status: '' @ string_of_nat status),
            Info (''Response data: '' @ responseData)],
           if 200 \<le> status \<and> status < 300 then
             Inr \<lparr>success = True, statusCode = status, data = responseData,
                  uploadedFileName = processedFileName fileData\<rparr>
           else
             Inl (Error (''Upload failed with status '' @ string_of_nat status @ '': ''
                         @ responseData)))
      | TransportError msg \<Rightarrow>
          ([ErrorLog (''Request error: '' @ msg)],
           Inl (Error (''Request failed: '' @ msg))))"

text \<open>
  \<open>https.request(requestOptions, ...)\<close>: it throws a TypeError, and sends nothing, on
  a path or on a header value that it does not accept; the first such header is named
  in the message.
\<close>

definition https_request :: "http_request \<Rightarrow> event list \<times> (js_error + http_request)" where
  "https_request options =
     (if \<not> latin1_text path_char (path options) then
        ([], Inl (TypeError ''Request path contains unescaped characters''))
      else
        (case find (\<lambda>h. \<not> latin1_text header_char (snd h)) (headers options) of
           Some h \<Rightarrow>
             ([], Inl (TypeError (''Invalid character in header content ['' @ [DQ]
                                  @ fst h @ [DQ] @ '']'')))
         | None \<Rightarrow> ([Request options], Inr options)))"

text \<open>An exception thrown in the executor rejects the promise; no request is made then.\<close>

definition uploadToBrainfish ::
  "'n world \<Rightarrow> processed_file_data \<Rightarrow> string \<Rightarrow> string \<Rightarrow> string
     \<Rightarrow> event list \<times> (js_error + upload_result)" where
  "uploadToBrainfish w fileData apiToken catalogId baseUrl =
     and_then (requestOptions w fileData apiToken catalogId baseUrl)
       (\<lambda>options. and_then (https_request options)
          (\<lambda>request. settle fileData (respond w request)))"

subsection \<open>\<open>main\<close>\<close>

abbreviation check_mark :: string where
  "check_mark \<equiv> [CHR 0xE2, CHR 0x9C, CHR 0x85]"

abbreviation cross_mark :: string where
  "cross_mark \<equiv> [CHR 0xE2, CHR 0x9D, CHR 0x8C]"

text \<open>\<open>core.getInput('base_url') || 'https://app.brainfi.sh'\<close>\<close>

definition baseUrl_input :: "'n world \<Rightarrow> string" where
  "baseUrl_input w =
     (if getInput w ''base_url'' = [] then ''https://app.brainfi.sh''
      else getInput w ''base_url'')"

text \<open>The body of the \<open>try\<close> up to the \<open>await\<close>: the log so far, and the error thrown or
  the value the promise resolved with.\<close>

definition main_body :: "'n world \<Rightarrow> event list \<times> (js_error + upload_result)" where
  "main_body w =
     (let apiToken = getInput w ''brainfish_api_token'';
          catalogId = getInput w ''catalog_id'';
          oasFilePath = getInput w ''oas_file_path'';
          baseUrl = baseUrl_input w
      in if apiToken = [] then ([], Inl (Error ''brainfish_api_token is required''))
         else if catalogId = [] then ([], Inl (Error ''catalog_id is required''))
         else if oasFilePath = [] then ([], Inl (Error ''oas_file_path is required''))
         else
           and_then
             ([Info ''Starting Brainfish OAS sync process'',
               Info (''Base URL: '' @ baseUrl),
               Info (''Catalog ID: '' @ catalogId),
               Info (''OAS file path: '' @ oasFilePath)],
              Inr ())
             (\<lambda>_. and_then (readOASFile w oasFilePath)
                (\<lambda>fileData. and_then (processOASFile w fileData)
                   (\<lambda>processedFileData.
                      uploadToBrainfish w processedFileData apiToken catalogId baseUrl))))"

definition main :: "'n world \<Rightarrow> event list" where
  "main w =
     (case main_body w of
        (log, Inr uploadResult) \<Rightarrow>
          log @ [SetOutput ''status''
                   (check_mark @ '' OAS file successfully synced to Brainfish!''),
                 SetOutput ''uploaded_file'' (uploadedFileName uploadResult),
                 Info (check_mark @ '' Success! Uploaded '' @ uploadedFileName uploadResult
                       @ '' to Brainfish catalog '' @ getInput w ''catalog_id'')]
      | (log, Inl error) \<Rightarrow>
          log @ [ErrorLog (cross_mark @ '' Error: '' @ message error),
                 SetFailed (message error)])"

section \<open>A concrete environment\<close>

text \<open>
  An instance of the Number parameter, restricted to the integral values and to NaN
  and the infinities: an integral Number prints as its decimal digits, and a token of
  digits, with or without a minus sign, reads as that integer. A token with a fraction
  or an exponent reads as \<open>Unmodelled\<close>, a Number that the instance says nothing else
  about; the examples meet none.
\<close>

datatype jsnum = Integer int | NaN | PosInfinity | NegInfinity | Unmodelled string

definition string_of_int :: "int \<Rightarrow> string" where
  "string_of_int i =
     (if i < 0 then CHR ''-'' # string_of_nat (nat (- i)) else string_of_nat (nat i))"

fun jsnum_toString :: "jsnum \<Rightarrow> string option" where
  "jsnum_toString (Integer i) = Some (string_of_int i)"
| "jsnum_toString n = None"

definition digit_val :: "char \<Rightarrow> nat" where
  "digit_val c = (case hex_val c of None \<Rightarrow> 0 | Some d \<Rightarrow> d)"

definition nat_of_digits :: "string \<Rightarrow> nat" where
  "nat_of_digits ds = foldl (\<lambda>a c. 10 * a + digit_val c) 0 ds"

definition jsnum_of_literal :: "string \<Rightarrow> jsnum" where
  "jsnum_of_literal t =
     (case t of
        [] \<Rightarrow> Unmodelled t
      | c # ds \<Rightarrow>
          if c = CHR ''-'' \<and> ds \<noteq> [] \<and> list_all is_digit ds then
            Integer (- int (nat_of_digits ds))
          else if list_all is_digit t then Integer (int (nat_of_digits t))
          else Unmodelled t)"

text \<open>
  What js-yaml reads in a few texts (among them a text that is only a comment, which
  it reads as one document, \<open>null\<close>), and \<open>new URL\<close> on a few addresses. The examples
  use the tables only on the texts listed, and on the address \<open>app.brainfi.sh\<close>,
  which has no scheme and is not a URL. The case mapping of the sample environment is
  never asked: the paths of the examples are ASCII.
\<close>

definition sample_documents :: "string \<Rightarrow> string + jsnum json list" where
  "sample_documents t =
     (if t = [] then Inr []
      else if t = ''openapi: 3.0.0'' then Inr [JObj [(''openapi'', JStr ''3.0.0'')]]
      else if t = ''servers: [{port: 8080, tls: true}]'' then
        Inr [JObj [(''servers'',
                    JArr [JObj [(''port'', JNum (Integer 8080)), (''tls'', JBool True)]])]]
      else if t = ''ratio: .nan'' then Inr [JObj [(''ratio'', JNum NaN)]]
      else if t = ''# to be written'' then Inr [JNull]
      else if t = ''paths: ['' then
        Inl ''unexpected end of the stream within a flow collection''
      else Inl ''text outside the table'')"

definition sample_url :: "string \<Rightarrow> url option" where
  "sample_url t =
     (if t = ''https://app.brainfi.sh'' then
        Some \<lparr>protocol = ''https:'', url_hostname = ''app.brainfi.sh'', url_port = []\<rparr>
      else if t = ''https://app.dev.brainfish.app'' then
        Some \<lparr>protocol = ''https:'', url_hostname = ''app.dev.brainfish.app'', url_port = []\<rparr>
      else if t = ''http://localhost:8080'' then
        Some \<lparr>protocol = ''http:'', url_hostname = ''localhost'', url_port = ''8080''\<rparr>
      else if t = ''app.brainfi.sh'' then None
      else None)"

definition sample_world ::
  "(string \<times> fs_entry) list \<Rightarrow> (string \<times> string) list \<Rightarrow> net_outcome \<Rightarrow> jsnum world" where
  "sample_world fs inputs outcome =
     \<lparr>files = map_of fs,
      getInput = (\<lambda>k. case map_of inputs k of None \<Rightarrow> [] | Some v \<Rightarrow> v),
      lowerCaseUnicode = (\<lambda>t. t),
      loadDocuments = sample_documents,
      numberToString = jsnum_toString,
      stringToNumber = jsnum_of_literal,
      syntaxErrorMessage = (\<lambda>t. ''Unexpected token in JSON''),
      parseURL = sample_url,
      boundary = ''--------------------------000000000000000000000000'',
      respond = (\<lambda>r. outcome)\<rparr>"

definition sample_inputs :: "string \<Rightarrow> (string \<times> string) list" where
  "sample_inputs filePath =
     [(''brainfish_api_token'', ''secret''),
      (''catalog_id'', ''8a2abadd-1140-4f40-921c-e4a30c6a8238''),
      (''oas_file_path'', filePath)]"

text \<open>The runs that the examples below look at.\<close>

definition world_missing_file :: "jsnum world" where
  "world_missing_file =
     sample_world [] (sample_inputs ''test/non-existent-file.json'') (Response 200 [])"

definition world_text_file :: "jsnum world" where
  "world_text_file =
     sample_world [(''notes.TXT'', File ''hello'')] (sample_inputs ''notes.TXT'')
       (Response 200 [])"

definition world_bad_yaml :: "jsnum world" where
  "world_bad_yaml =
     sample_world [(''docs/api.yaml'', File ''paths: ['')] (sample_inputs ''docs/api.yaml'')
       (Response 200 [])"

definition world_bad_json :: "jsnum world" where
  "world_bad_json =
     sample_world [(''openapi.json'', File ''[1,]'')] (sample_inputs ''openapi.json'')
       (Response 200 [])"

definition world_json :: "net_outcome \<Rightarrow> jsnum world" where
  "world_json outcome =
     sample_world [(''test/api-spec.JSON'', File ''{ }'')] (sample_inputs ''test/api-spec.JSON'')
       outcome"

definition world_upper_yaml :: "jsnum world" where
  "world_upper_yaml =
     sample_world [(''docs/API.YAML'', File ''openapi: 3.0.0'')] (sample_inputs ''docs/API.YAML'')
       (Response 201 ''ok'')"

definition world_servers_yaml :: "jsnum world" where
  "world_servers_yaml =
     sample_world [(''docs/api.yaml'', File ''servers: [{port: 8080, tls: true}]'')]
       (sample_inputs ''docs/api.yaml'') (Response 201 ''ok'')"

definition world_comment_yaml :: "jsnum world" where
  "world_comment_yaml =
     sample_world [(''docs/api.yaml'', File ''# to be written'')]
       (sample_inputs ''docs/api.yaml'') (Response 201 ''ok'')"

definition world_latin1_json :: "jsnum world" where
  "world_latin1_json =
     sample_world [(''openapi.json'', File [DQ, CHR 0xFF, DQ])]
       (sample_inputs ''openapi.json'') (Response 201 ''ok'')"

definition world_two_line_token :: "jsnum world" where
  "world_two_line_token =
     sample_world [(''test/api-spec.JSON'', File ''{ }'')]
       [(''brainfish_api_token'', ''sec'' @ [NL] @ ''ret''),
        (''catalog_id'', ''8a2abadd-1140-4f40-921c-e4a30c6a8238''),
        (''oas_file_path'', ''test/api-spec.JSON'')]
       (Response 201 ''ok'')"

definition world_empty_yaml :: "jsnum world" where
  "world_empty_yaml =
     sample_world [(''docs/api.yml'', File [])] (sample_inputs ''docs/api.yml'')
       (Response 201 ''ok'')"

section \<open>Facts about the log and the stages\<close>

lemma requests_append: "requests (xs @ ys) = requests xs @ requests ys"
  by (induction xs rule: requests.induct) auto

lemma outputs_append: "outputs (xs @ ys) = outputs xs @ outputs ys"
  by (induction xs rule: outputs.induct) auto

lemma and_then_Inl: "snd m = Inl e \<Longrightarrow> and_then m f = (fst m, Inl e)"
  by (simp add: and_then_def)

lemma and_then_Inr: "snd m = Inr a \<Longrightarrow> and_then m f = (fst m @ fst (f a), snd (f a))"
  by (simp add: and_then_def)

lemma outputs_and_then:
  "outputs (fst m) = [] \<Longrightarrow> (\<And>a. outputs (fst (f a)) = []) \<Longrightarrow>
   outputs (fst (and_then m f)) = []"
  by (cases "snd m") (simp_all add: and_then_def outputs_append)

lemma readOASFile_quiet:
  "requests (fst (readOASFile w p)) = [] \<and> outputs (fst (readOASFile w p)) = []"
  by (simp add: readOASFile_def Let_def split: option.splits fs_entry.splits)

lemma processOASFile_quiet:
  "requests (fst (processOASFile w fd)) = [] \<and> outputs (fst (processOASFile w fd)) = []"
  by (simp add: processOASFile_def split: option.splits sum.splits)

lemma requestOptions_quiet:
  "requests (fst (requestOptions w fd t c b)) = [] \<and>
   outputs (fst (requestOptions w fd t c b)) = []"
  by (simp add: requestOptions_def Let_def split: option.splits)

lemma settle_quiet:
  "requests (fst (settle fd out)) = [] \<and> outputs (fst (settle fd out)) = []"
  by (simp add: settle_def split: net_outcome.splits)

lemma https_request_cases:
  "https_request options = ([Request options], Inr options)
   \<or> (\<exists>e. https_request options = ([], Inl e))"
  by (simp add: https_request_def split: option.splits)

lemma https_request_quiet: "outputs (fst (https_request options)) = []"
  using https_request_cases[of options] by auto

lemma https_request_ok:
  assumes "latin1_text path_char (path options)"
    and "list_all (\<lambda>h. latin1_text header_char (snd h)) (headers options)"
  shows "https_request options = ([Request options], Inr options)"
proof -
  have "find (\<lambda>h. \<not> latin1_text header_char (snd h)) (headers options) = None"
    using assms(2) by (auto simp: find_None_iff list_all_iff)
  then show ?thesis
    using assms(1) by (simp add: https_request_def)
qed

lemma uploadToBrainfish_outputs: "outputs (fst (uploadToBrainfish w fd t c b)) = []"
  unfolding uploadToBrainfish_def
  by (intro outputs_and_then) (simp_all add: requestOptions_quiet settle_quiet https_request_quiet)

lemma main_body_outputs: "outputs (fst (main_body w)) = []"
  unfolding main_body_def Let_def
  by (auto intro!: outputs_and_then
      simp: readOASFile_quiet processOASFile_quiet uploadToBrainfish_outputs)

lemma requests_main: "requests (main w) = requests (fst (main_body w))"
  by (simp add: main_def requests_append split: prod.splits sum.splits)

lemma main_body_read_fails:
  assumes "snd (readOASFile w (getInput w ''oas_file_path'')) = Inl e"
  shows "requests (fst (main_body w)) = []"
  using assms readOASFile_quiet[of w "getInput w ''oas_file_path''"]
  by (simp add: main_body_def Let_def and_then_def requests_append)

lemma main_body_process_fails:
  assumes "snd (readOASFile w (getInput w ''oas_file_path'')) = Inr fd"
    and "snd (processOASFile w fd) = Inl e"
  shows "requests (fst (main_body w)) = []"
  using assms readOASFile_quiet[of w "getInput w ''oas_file_path''"]
    processOASFile_quiet[of w fd]
  by (simp add: main_body_def Let_def and_then_def requests_append)

text \<open>An upload either sends nothing and rejects, or sends the one request that
  \<open>requestOptions\<close> built and settles as the callbacks say.\<close>

lemma uploadToBrainfish_cases:
  "(requests (fst (uploadToBrainfish w fd t c b)) = []
      \<and> (\<exists>e. snd (uploadToBrainfish w fd t c b) = Inl e))
   \<or> (\<exists>req. snd (requestOptions w fd t c b) = Inr req
         \<and> https_request req = ([Request req], Inr req)
         \<and> requests (fst (uploadToBrainfish w fd t c b)) = [req]
         \<and> snd (uploadToBrainfish w fd t c b) = snd (settle fd (respond w req)))"
proof (cases "snd (requestOptions w fd t c b)")
  case (Inl e)
  then show ?thesis
    using requestOptions_quiet[of w fd t c b]
    by (simp add: uploadToBrainfish_def and_then_def)
next
  case (Inr req)
  from https_request_cases[of req] show ?thesis
  proof
    assume "https_request req = ([Request req], Inr req)"
    then show ?thesis
      using Inr requestOptions_quiet[of w fd t c b] settle_quiet[of fd "respond w req"]
      by (simp add: uploadToBrainfish_def and_then_def requests_append)
  next
    assume "\<exists>e. https_request req = ([], Inl e)"
    then show ?thesis
      using Inr requestOptions_quiet[of w fd t c b]
      by (auto simp: uploadToBrainfish_def and_then_def requests_append)
  qed
qed

lemma uploadToBrainfish_made:
  assumes "requests (fst (uploadToBrainfish w fd t c b)) = [req]"
  shows "snd (requestOptions w fd t c b) = Inr req"
    and "snd (uploadToBrainfish w fd t c b) = snd (settle fd (respond w req))"
  using uploadToBrainfish_cases[of w fd t c b] assms by auto

lemma main_body_uploads:
  assumes "getInput w ''brainfish_api_token'' \<noteq> []" and "getInput w ''catalog_id'' \<noteq> []"
    and "getInput w ''oas_file_path'' \<noteq> []"
    and "snd (readOASFile w (getInput w ''oas_file_path'')) = Inr fd"
    and "snd (processOASFile w fd) = Inr p"
  shows "requests (fst (main_body w)) =
           requests (fst (uploadToBrainfish w p (getInput w ''brainfish_api_token'')
                            (getInput w ''catalog_id'') (baseUrl_input w)))"
    and "snd (main_body w) =
           snd (uploadToBrainfish w p (getInput w ''brainfish_api_token'')
                            (getInput w ''catalog_id'') (baseUrl_input w))"
  using assms readOASFile_quiet[of w "getInput w ''oas_file_path''"]
    processOASFile_quiet[of w fd]
  by (simp_all add: main_body_def Let_def and_then_def requests_append)

lemma main_body_requests_cases:
  assumes "snd (readOASFile w (getInput w ''oas_file_path'')) = Inr fd"
    and "snd (processOASFile w fd) = Inr p"
  shows "requests (fst (main_body w)) = []
         \<or> requests (fst (main_body w)) =
             requests (fst (uploadToBrainfish w p (getInput w ''brainfish_api_token'')
                              (getInput w ''catalog_id'') (baseUrl_input w)))"
proof (cases "getInput w ''brainfish_api_token'' \<noteq> [] \<and> getInput w ''catalog_id'' \<noteq> []
              \<and> getInput w ''oas_file_path'' \<noteq> []")
  case True
  then show ?thesis using main_body_uploads(1)[OF _ _ _ assms] by simp
next
  case False
  then show ?thesis by (auto simp: main_body_def Let_def)
qed

lemma utf8_decode_ascii: "list_all is_ascii s \<Longrightarrow> utf8_decode s = s"
  by (induction s) simp_all

lemma readOASFile_File:
  "files w p = Some (File bytes) \<Longrightarrow>
   snd (readOASFile w p) =
     Inr \<lparr>content = utf8_decode bytes,
          extension = toLowerCase (lowerCaseUnicode w) (extname p),
          fileName = basename p, size_bytes = length bytes\<rparr>"
  by (simp add: readOASFile_def Let_def)

lemmas path_defs = toLowerCase_def is_ascii_def extname_def basename_def
  strip_trailing_slashes_def lower_char_def utf8_decode_ascii

lemmas world_defs = sample_world_def sample_inputs_def

lemma readOASFile_Directory:
  "files w p = Some Directory \<Longrightarrow>
   snd (readOASFile w p) = Inl (Error ''EISDIR: illegal operation on a directory, read'')"
  by (simp add: readOASFile_def)

lemma processOASFile_json:
  assumes "extension fd = ''.json''" and "JSON_parse (stringToNumber w) (content fd) = Some v"
  shows "snd (processOASFile w fd) =
           Inr (file_data.extend fd
                  (processed_file_data.fields (Some (content fd)) (fileName fd)))"
  using assms by (simp add: processOASFile_def)

lemma requestOptions_ok:
  assumes "processedContent fd = Some jsonText" and "parseURL w baseUrl = Some u"
  shows "snd (requestOptions w fd apiToken catalogId baseUrl) =
           Inr \<lparr>req_method = ''POST'',
                hostname = url_hostname u,
                port = (if url_port u \<noteq> [] then url_port u
                        else if protocol u = ''https:'' then ''443'' else ''80''),
                path = ''/api/catalogs.upload?catalogId='' @ encodeURIComponent catalogId,
                headers = [(''content-type'', ''multipart/form-data; boundary='' @ boundary w),
                           (''Authorization'', ''Bearer '' @ apiToken)],
                form = [\<lparr>field = ''file'', filename = processedFileName fd,
                         contentType = ''application/json'', part_body = jsonText\<rparr>]\<rparr>"
  using assms by (simp add: requestOptions_def Let_def)

lemma requestOptions_form:
  assumes "snd (requestOptions w fd apiToken catalogId baseUrl) = Inr req"
    and "processedContent fd = Some jsonText"
  shows "form req = [\<lparr>field = ''file'', filename = processedFileName fd,
                      contentType = ''application/json'', part_body = jsonText\<rparr>]"
  using assms by (auto simp: requestOptions_def Let_def split: option.splits)

lemmas processed_defs = file_data.defs processed_file_data.defs

subsection \<open>Paths and header values that \<open>https.request\<close> accepts\<close>

lemma latin1_text_Cons_ascii:
  "is_ascii c \<Longrightarrow> latin1_text ok (c # s) = (ok c \<and> latin1_text ok s)"
  by (cases s) simp_all

lemma latin1_text_ascii_append:
  "list_all (\<lambda>c. is_ascii c \<and> ok c) a \<Longrightarrow> latin1_text ok (a @ b) = latin1_text ok b"
  by (induction a) (simp_all add: latin1_text_Cons_ascii)

lemma latin1_text_ascii: "list_all (\<lambda>c. is_ascii c \<and> ok c) a \<Longrightarrow> latin1_text ok a"
  using latin1_text_ascii_append[of ok a "[]"] by simp

lemma unreserved_path_char: "uri_unreserved c \<Longrightarrow> is_ascii c \<and> path_char c"
proof -
  have "list_all (\<lambda>c. is_ascii c \<and> path_char c)
          ''ABCDEFGHIJKLMNOPQRSTUVWXYZabcdefghijklmnopqrstuvwxyz0123456789-_.!~*'()''"
    by (simp add: is_ascii_def path_char_def in_range_def)
  then show "uri_unreserved c \<Longrightarrow> is_ascii c \<and> path_char c"
    unfolding uri_unreserved_def list_all_iff by blast
qed

lemma hex_upper_path_char: "d < 16 \<Longrightarrow> is_ascii (hex_upper d) \<and> path_char (hex_upper d)"
proof -
  have "list_all (\<lambda>c. is_ascii c \<and> path_char c) ''0123456789ABCDEF''"
    by (simp add: is_ascii_def path_char_def in_range_def)
  moreover assume "d < 16"
  then have "hex_upper d \<in> set ''0123456789ABCDEF''"
    unfolding hex_upper_def by (intro nth_mem) simp
  ultimately show ?thesis
    unfolding list_all_iff by blast
qed

lemma encode_byte_path_chars: "list_all (\<lambda>c. is_ascii c \<and> path_char c) (encode_byte c)"
proof -
  have "(of_char c :: nat) < 256"
    by (metis of_char_mod_256 mod_less_divisor zero_less_numeral)
  then have "(of_char c :: nat) div 16 < 16"
    by (intro less_mult_imp_div_less) simp
  then show ?thesis
    using unreserved_path_char[of c] hex_upper_path_char
    by (simp add: encode_byte_def is_ascii_def path_char_def in_range_def)
qed

lemma encodeURIComponent_path_chars:
  "list_all (\<lambda>c. is_ascii c \<and> path_char c) (encodeURIComponent s)"
  by (induction s) (simp_all add: encodeURIComponent_def encode_byte_path_chars)

lemma request_path_accepted:
  "latin1_text path_char (''/api/catalogs.upload?catalogId='' @ encodeURIComponent catalogId)"
proof -
  have "list_all (\<lambda>c. is_ascii c \<and> path_char c) ''/api/catalogs.upload?catalogId=''"
    by (simp add: is_ascii_def path_char_def in_range_def)
  then show ?thesis
    using encodeURIComponent_path_chars[of catalogId]
    by (intro latin1_text_ascii) simp
qed

lemma request_headers_accepted:
  assumes "latin1_text header_char apiToken" and "latin1_text header_char bnd"
  shows "list_all (\<lambda>h. latin1_text header_char (snd h))
           [(''content-type'', ''multipart/form-data; boundary='' @ bnd),
            (''Authorization'', ''Bearer '' @ apiToken)]"
proof -
  have a: "list_all (\<lambda>c. is_ascii c \<and> header_char c) ''multipart/form-data; boundary=''"
    and b: "list_all (\<lambda>c. is_ascii c \<and> header_char c) ''Bearer ''"
    by (simp_all add: is_ascii_def header_char_def in_range_def)
  have "latin1_text header_char (''multipart/form-data; boundary='' @ bnd)"
    unfolding latin1_text_ascii_append[OF a] by (rule assms(2))
  moreover have "latin1_text header_char (''Bearer '' @ apiToken)"
    unfolding latin1_text_ascii_append[OF b] by (rule assms(1))
  ultimately show ?thesis by simp
qed

text \<open>With a token and a boundary that are legal header values, the request is sent.\<close>

lemma uploadToBrainfish_sent:
  assumes "processedContent fd = Some jsonText" and "parseURL w baseUrl = Some u"
    and "latin1_text header_char apiToken" and "latin1_text header_char (boundary w)"
  shows "requests (fst (uploadToBrainfish w fd apiToken catalogId baseUrl)) =
           [\<lparr>req_method = ''POST'',
             hostname = url_hostname u,
             port = (if url_port u \<noteq> [] then url_port u
                     else if protocol u = ''https:'' then ''443'' else ''80''),
             path = ''/api/catalogs.upload?catalogId='' @ encodeURIComponent catalogId,
             headers = [(''content-type'', ''multipart/form-data; boundary='' @ boundary w),
                        (''Authorization'', ''Bearer '' @ apiToken)],
             form = [\<lparr>field = ''file'', filename = processedFileName fd,
                      contentType = ''application/json'', part_body = jsonText\<rparr>]\<rparr>]"
proof -
  let ?req = "\<lparr>req_method = ''POST'',
             hostname = url_hostname u,
             port = (if url_port u \<noteq> [] then url_port u
                     else if protocol u = ''https:'' then ''443'' else ''80''),
             path = ''/api/catalogs.upload?catalogId='' @ encodeURIComponent catalogId,
             headers = [(''content-type'', ''multipart/form-data; boundary='' @ boundary w),
                        (''Authorization'', ''Bearer '' @ apiToken)],
             form = [\<lparr>field = ''file'', filename = processedFileName fd,
                      contentType = ''application/json'', part_body = jsonText\<rparr>]\<rparr>"
  have q: "snd (requestOptions w fd apiToken catalogId baseUrl) = Inr ?req"
    by (rule requestOptions_ok[OF assms(1,2)])
  have h: "https_request ?req = ([Request ?req], Inr ?req)"
    using request_path_accepted[of catalogId] request_headers_accepted[OF assms(3,4)]
    by (intro https_request_ok) simp_all
  show ?thesis
    using q h requestOptions_quiet[of w fd apiToken catalogId baseUrl]
      settle_quiet[of fd "respond w ?req"]
    by (simp add: uploadToBrainfish_def and_then_def requests_append)
qed

text \<open>With a token that is not a legal header value, \<open>https.request\<close> throws.\<close>

lemma uploadToBrainfish_refused:
  assumes "processedContent fd = Some jsonText" and "parseURL w baseUrl = Some u"
    and "\<not> latin1_text header_char apiToken" and "latin1_text header_char (boundary w)"
  shows "requests (fst (uploadToBrainfish w fd apiToken catalogId baseUrl)) = []"
    and "snd (uploadToBrainfish w fd apiToken catalogId baseUrl)
           = Inl (TypeError (''Invalid character in header content ['' @ [DQ]
                             @ ''Authorization'' @ [DQ] @ '']''))"
proof -
  let ?req = "\<lparr>req_method = ''POST'',
             hostname = url_hostname u,
             port = (if url_port u \<noteq> [] then url_port u
                     else if protocol u = ''https:'' then ''443'' else ''80''),
             path = ''/api/catalogs.upload?catalogId='' @ encodeURIComponent catalogId,
             headers = [(''content-type'', ''multipart/form-data; boundary='' @ boundary w),
                        (''Authorization'', ''Bearer '' @ apiToken)],
             form = [\<lparr>field = ''file'', filename = processedFileName fd,
                      contentType = ''application/json'', part_body = jsonText\<rparr>]\<rparr>"
  have q: "snd (requestOptions w fd apiToken catalogId baseUrl) = Inr ?req"
    by (rule requestOptions_ok[OF assms(1,2)])
  have a: "list_all (\<lambda>c. is_ascii c \<and> header_char c) ''multipart/form-data; boundary=''"
    and b: "list_all (\<lambda>c. is_ascii c \<and> header_char c) ''Bearer ''"
    by (simp_all add: is_ascii_def header_char_def in_range_def)
  have c: "latin1_text header_char (''multipart/form-data; boundary='' @ boundary w)"
    unfolding latin1_text_ascii_append[OF a] by (rule assms(4))
  have t: "\<not> latin1_text header_char (''Bearer '' @ apiToken)"
    unfolding latin1_text_ascii_append[OF b] by (rule assms(3))
  have "find (\<lambda>h. \<not> latin1_text header_char (snd h)) (headers ?req)
          = Some (''Authorization'', ''Bearer '' @ apiToken)"
    using c t by simp
  then have h: "https_request ?req
                  = ([], Inl (TypeError (''Invalid character in header content ['' @ [DQ]
                                         @ ''Authorization'' @ [DQ] @ '']'')))"
    using request_path_accepted[of catalogId] by (simp add: https_request_def)
  have u: "uploadToBrainfish w fd apiToken catalogId baseUrl
             = (fst (requestOptions w fd apiToken catalogId baseUrl),
                Inl (TypeError (''Invalid character in header content ['' @ [DQ]
                                @ ''Authorization'' @ [DQ] @ '']'')))"
    unfolding uploadToBrainfish_def and_then_Inr[OF q] h by (simp add: and_then_def)
  show "requests (fst (uploadToBrainfish w fd apiToken catalogId baseUrl)) = []"
    unfolding u using requestOptions_quiet[of w fd apiToken catalogId baseUrl] by simp
  show "snd (uploadToBrainfish w fd apiToken catalogId baseUrl)
           = Inl (TypeError (''Invalid character in header content ['' @ [DQ]
                             @ ''Authorization'' @ [DQ] @ '']''))"
    unfolding u by simp
qed

lemma settle_result:
  "snd (settle fd outcome) =
     (case outcome of
        Response status body \<Rightarrow>
          if 200 \<le> status \<and> status < 300 then
            Inr \<lparr>success = True, statusCode = status, data = body,
                 uploadedFileName = processedFileName fd\<rparr>
          else Inl (Error (''Upload failed with status '' @ string_of_nat status @ '': ''
                           @ body))
      | TransportError msg \<Rightarrow> Inl (Error (''Request failed: '' @ msg)))"
  by (simp add: settle_def split: net_outcome.splits)

lemmas sample_payload_defs = requestOptions_def sample_url_def world_json_def world_defs

lemmas header_defs = https_request_def header_char_def path_char_def is_ascii_def in_range_def

lemma encodeURIComponent_unreserved:
  "\<forall>c \<in> set s. uri_unreserved c \<Longrightarrow> encodeURIComponent s = s"
  by (induction s) (simp_all add: encodeURIComponent_def encode_byte_def)

lemmas uri_defs = encodeURIComponent_def encode_byte_def uri_unreserved_def hex_upper_def

lemma uploadToBrainfish_resolved:
  assumes "snd (uploadToBrainfish w fd t c b) = Inr r"
  shows "200 \<le> statusCode r \<and> statusCode r < 300"
proof -
  obtain req where "snd (settle fd (respond w req)) = Inr r"
    using assms uploadToBrainfish_cases[of w fd t c b] by auto
  then show ?thesis
    by (auto simp: settle_result split: net_outcome.splits if_splits)
qed

lemma main_body_resolved:
  assumes "snd (main_body w) = Inr r"
  shows "200 \<le> statusCode r \<and> statusCode r < 300"
proof -
  have "\<exists>fd. snd (uploadToBrainfish w fd (getInput w ''brainfish_api_token'')
                    (getInput w ''catalog_id'') (baseUrl_input w)) = Inr r"
    using assms
    by (auto simp: main_body_def Let_def and_then_def split: if_splits sum.splits)
  then show ?thesis
    using uploadToBrainfish_resolved by blast
qed

lemma main_body_upload_result:
  assumes "getInput w ''brainfish_api_token'' \<noteq> []" and "getInput w ''catalog_id'' \<noteq> []"
    and "getInput w ''oas_file_path'' = filePath" and "filePath \<noteq> []"
    and "files w filePath = Some (File bytes)" and "utf8_decode bytes = bytes"
    and "toLowerCase (lowerCaseUnicode w) (extname filePath) = ''.json''"
    and "JSON_parse (stringToNumber w) bytes = Some v"
    and "parseURL w (baseUrl_input w) = Some u"
    and "latin1_text header_char (getInput w ''brainfish_api_token'')"
    and "latin1_text header_char (boundary w)"
  shows "snd (main_body w) =
           snd (settle \<lparr>content = bytes, extension = ''.json'',
                        fileName = basename filePath, size_bytes = length bytes,
                        processedContent = Some bytes,
                        processedFileName = basename filePath\<rparr>
                  (respond w
                     \<lparr>req_method = ''POST'',
                      hostname = url_hostname u,
                      port = (if url_port u \<noteq> [] then url_port u
                              else if protocol u = ''https:'' then ''443'' else ''80''),
                      path = ''/api/catalogs.upload?catalogId=''
                             @ encodeURIComponent (getInput w ''catalog_id''),
                      headers = [(''content-type'',
                                  ''multipart/form-data; boundary='' @ boundary w),
                                 (''Authorization'',
                                  ''Bearer '' @ getInput w ''brainfish_api_token'')],
                      form = [\<lparr>field = ''file'', filename = basename filePath,
                               contentType = ''application/json'',
                               part_body = bytes\<rparr>]\<rparr>))"
    and "map form (requests (fst (main_body w))) =
           [[\<lparr>field = ''file'', filename = basename filePath,
              contentType = ''application/json'', part_body = bytes\<rparr>]]"
proof -
  let ?fd = "\<lparr>content = bytes, extension = ''.json'',
              fileName = basename filePath, size_bytes = length bytes\<rparr>"
  let ?p = "\<lparr>content = bytes, extension = ''.json'',
             fileName = basename filePath, size_bytes = length bytes,
             processedContent = Some bytes,
             processedFileName = basename filePath\<rparr>"
  have r: "snd (readOASFile w filePath) = Inr ?fd"
    using readOASFile_File[OF assms(5)] assms(6,7) by simp
  have p: "snd (processOASFile w ?fd) = Inr ?p"
    using processOASFile_json[of ?fd w v] assms(8) by (simp add: processed_defs)
  have pc: "processedContent ?p = Some bytes" by simp
  note s = uploadToBrainfish_sent[OF pc assms(9,10,11), of "getInput w ''catalog_id''"]
  show "snd (main_body w) =
           snd (settle ?p
                  (respond w
                     \<lparr>req_method = ''POST'',
                      hostname = url_hostname u,
                      port = (if url_port u \<noteq> [] then url_port u
                              else if protocol u = ''https:'' then ''443'' else ''80''),
                      path = ''/api/catalogs.upload?catalogId=''
                             @ encodeURIComponent (getInput w ''catalog_id''),
                      headers = [(''content-type'',
                                  ''multipart/form-data; boundary='' @ boundary w),
                                 (''Authorization'',
                                  ''Bearer '' @ getInput w ''brainfish_api_token'')],
                      form = [\<lparr>field = ''file'', filename = basename filePath,
                               contentType = ''application/json'',
                               part_body = bytes\<rparr>]\<rparr>))"
    using main_body_uploads(2)[of w ?fd ?p] assms(1-4) r p uploadToBrainfish_made(2)[OF s]
    by simp
  show "map form (requests (fst (main_body w))) =
           [[\<lparr>field = ''file'', filename = basename filePath,
              contentType = ''application/json'', part_body = bytes\<rparr>]]"
    using main_body_uploads(1)[of w ?fd ?p] assms(1-4) r p s by simp
qed

lemma replace_yaml_ext_lower:
  "replace_yaml_ext (stem @ ''.yaml'') = stem @ ''.json''"
  "replace_yaml_ext (stem @ ''.yml'') = stem @ ''.json''"
  by (simp_all add: replace_yaml_ext_def endsWith_def)

subsection \<open>A whole run\<close>

lemma main_outputs_resolved:
  assumes "snd (main_body w) = Inr r"
  shows "outputs (main w)
           = [(''status'', check_mark @ '' OAS file successfully synced to Brainfish!''),
              (''uploaded_file'', uploadedFileName r)]"
  using assms main_body_outputs[of w]
  by (cases "main_body w") (simp add: main_def outputs_append)

lemma main_run:
  assumes "getInput w ''brainfish_api_token'' \<noteq> []" and "getInput w ''catalog_id'' \<noteq> []"
    and "getInput w ''oas_file_path'' \<noteq> []"
    and "snd (readOASFile w (getInput w ''oas_file_path'')) = Inr fd"
    and "snd (processOASFile w fd) = Inr p"
    and "processedContent p = Some jsonText"
    and "parseURL w (baseUrl_input w) = Some u"
    and "latin1_text header_char (getInput w ''brainfish_api_token'')"
    and "latin1_text header_char (boundary w)"
  shows "requests (main w) =
           [\<lparr>req_method = ''POST'',
             hostname = url_hostname u,
             port = (if url_port u \<noteq> [] then url_port u
                     else if protocol u = ''https:'' then ''443'' else ''80''),
             path = ''/api/catalogs.upload?catalogId=''
                    @ encodeURIComponent (getInput w ''catalog_id''),
             headers = [(''content-type'', ''multipart/form-data; boundary='' @ boundary w),
                        (''Authorization'', ''Bearer '' @ getInput w ''brainfish_api_token'')],
             form = [\<lparr>field = ''file'', filename = processedFileName p,
                      contentType = ''application/json'', part_body = jsonText\<rparr>]\<rparr>]"
    and "snd (main_body w) =
           snd (settle p
                  (respond w
                     \<lparr>req_method = ''POST'',
                      hostname = url_hostname u,
                      port = (if url_port u \<noteq> [] then url_port u
                              else if protocol u = ''https:'' then ''443'' else ''80''),
                      path = ''/api/catalogs.upload?catalogId=''
                             @ encodeURIComponent (getInput w ''catalog_id''),
                      headers = [(''content-type'',
                                  ''multipart/form-data; boundary='' @ boundary w),
                                 (''Authorization'',
                                  ''Bearer '' @ getInput w ''brainfish_api_token'')],
                      form = [\<lparr>field = ''file'', filename = processedFileName p,
                               contentType = ''application/json'',
                               part_body = jsonText\<rparr>]\<rparr>))"
proof -
  note s = uploadToBrainfish_sent[OF assms(6,7,8,9), of "getInput w ''catalog_id''"]
  show "requests (main w) =
           [\<lparr>req_method = ''POST'',
             hostname = url_hostname u,
             port = (if url_port u \<noteq> [] then url_port u
                     else if protocol u = ''https:'' then ''443'' else ''80''),
             path = ''/api/catalogs.upload?catalogId=''
                    @ encodeURIComponent (getInput w ''catalog_id''),
             headers = [(''content-type'', ''multipart/form-data; boundary='' @ boundary w),
                        (''Authorization'', ''Bearer '' @ getInput w ''brainfish_api_token'')],
             form = [\<lparr>field = ''file'', filename = processedFileName p,
                      contentType = ''application/json'', part_body = jsonText\<rparr>]\<rparr>]"
    using main_body_uploads(1)[OF assms(1-5)] s by (simp add: requests_main)
  show "snd (main_body w) =
           snd (settle p
                  (respond w
                     \<lparr>req_method = ''POST'',
                      hostname = url_hostname u,
                      port = (if url_port u \<noteq> [] then url_port u
                              else if protocol u = ''https:'' then ''443'' else ''80''),
                      path = ''/api/catalogs.upload?catalogId=''
                             @ encodeURIComponent (getInput w ''catalog_id''),
                      headers = [(''content-type'',
                                  ''multipart/form-data; boundary='' @ boundary w),
                                 (''Authorization'',
                                  ''Bearer '' @ getInput w ''brainfish_api_token'')],
                      form = [\<lparr>field = ''file'', filename = processedFileName p,
                               contentType = ''application/json'',
                               part_body = jsonText\<rparr>]\<rparr>))"
    using main_body_uploads(2)[OF assms(1-5)] uploadToBrainfish_made(2)[OF s] by simp
qed

text \<open>The sample environment, on a file of ASCII text that the run reads.\<close>

lemma sample_world_fields:
  "files (sample_world fs inputs outcome) = map_of fs"
  "getInput (sample_world fs inputs outcome) k
     = (case map_of inputs k of None \<Rightarrow> [] | Some v \<Rightarrow> v)"
  "loadDocuments (sample_world fs inputs outcome) = sample_documents"
  "numberToString (sample_world fs inputs outcome) = jsnum_toString"
  "stringToNumber (sample_world fs inputs outcome) = jsnum_of_literal"
  "parseURL (sample_world fs inputs outcome) = sample_url"
  "respond (sample_world fs inputs outcome) r = outcome"
  "boundary (sample_world fs inputs outcome)
     = ''--------------------------000000000000000000000000''"
  by (simp_all add: sample_world_def)

lemma sample_world_inputs:
  "getInput (sample_world fs (sample_inputs filePath) outcome) ''brainfish_api_token''
     = ''secret''"
  "getInput (sample_world fs (sample_inputs filePath) outcome) ''catalog_id''
     = ''8a2abadd-1140-4f40-921c-e4a30c6a8238''"
  "getInput (sample_world fs (sample_inputs filePath) outcome) ''oas_file_path'' = filePath"
  "baseUrl_input (sample_world fs (sample_inputs filePath) outcome) = ''https://app.brainfi.sh''"
  "parseURL (sample_world fs (sample_inputs filePath) outcome)
     (baseUrl_input (sample_world fs (sample_inputs filePath) outcome))
     = Some \<lparr>protocol = ''https:'', url_hostname = ''app.brainfi.sh'', url_port = []\<rparr>"
  "latin1_text header_char
     (getInput (sample_world fs (sample_inputs filePath) outcome) ''brainfish_api_token'')"
  "latin1_text header_char (boundary (sample_world fs (sample_inputs filePath) outcome))"
  by (simp_all add: sample_world_def sample_inputs_def baseUrl_input_def sample_url_def
      header_char_def is_ascii_def in_range_def)

lemma sample_world_read:
  assumes "map_of fs filePath = Some (File bytes)" and "list_all is_ascii bytes"
    and "list_all is_ascii (extname filePath)"
  shows "snd (readOASFile (sample_world fs (sample_inputs filePath) outcome)
                (getInput (sample_world fs (sample_inputs filePath) outcome) ''oas_file_path''))
           = Inr \<lparr>content = bytes, extension = map lower_char (extname filePath),
                  fileName = basename filePath, size_bytes = length bytes\<rparr>"
proof -
  have "files (sample_world fs (sample_inputs filePath) outcome) filePath = Some (File bytes)"
    using assms(1) by (simp add: sample_world_fields)
  from readOASFile_File[OF this] show ?thesis
    using assms(2,3) by (simp add: sample_world_inputs utf8_decode_ascii toLowerCase_def)
qed

lemma sample_run:
  assumes "filePath \<noteq> []"
    and "snd (readOASFile (sample_world fs (sample_inputs filePath) outcome)
                (getInput (sample_world fs (sample_inputs filePath) outcome) ''oas_file_path''))
           = Inr fd"
    and "snd (processOASFile (sample_world fs (sample_inputs filePath) outcome) fd) = Inr p"
    and "processedContent p = Some jsonText"
  shows "requests (main (sample_world fs (sample_inputs filePath) outcome)) =
           [\<lparr>req_method = ''POST'', hostname = ''app.brainfi.sh'', port = ''443'',
             path = ''/api/catalogs.upload?catalogId=8a2abadd-1140-4f40-921c-e4a30c6a8238'',
             headers = [(''content-type'',
                         ''multipart/form-data; boundary=--------------------------000000000000000000000000''),
                        (''Authorization'', ''Bearer secret'')],
             form = [\<lparr>field = ''file'', filename = processedFileName p,
                      contentType = ''application/json'', part_body = jsonText\<rparr>]\<rparr>]"
    and "snd (main_body (sample_world fs (sample_inputs filePath) outcome))
           = snd (settle p outcome)"
proof -
  let ?w = "sample_world fs (sample_inputs filePath) outcome"
  have i: "getInput ?w ''brainfish_api_token'' \<noteq> []" "getInput ?w ''catalog_id'' \<noteq> []"
    "getInput ?w ''oas_file_path'' \<noteq> []"
    using assms(1) by (simp_all add: sample_world_inputs)
  have e: "encodeURIComponent ''8a2abadd-1140-4f40-921c-e4a30c6a8238''
             = ''8a2abadd-1140-4f40-921c-e4a30c6a8238''"
    by (intro encodeURIComponent_unreserved) (simp add: uri_unreserved_def)
  note m = main_run[OF i assms(2,3,4) sample_world_inputs(5,6,7)]
  show "requests (main ?w) =
           [\<lparr>req_method = ''POST'', hostname = ''app.brainfi.sh'', port = ''443'',
             path = ''/api/catalogs.upload?catalogId=8a2abadd-1140-4f40-921c-e4a30c6a8238'',
             headers = [(''content-type'',
                         ''multipart/form-data; boundary=--------------------------000000000000000000000000''),
                        (''Authorization'', ''Bearer secret'')],
             form = [\<lparr>field = ''file'', filename = processedFileName p,
                      contentType = ''application/json'', part_body = jsonText\<rparr>]\<rparr>]"
    using m(1) by (simp add: sample_world_inputs sample_world_fields(8) e)
  show "snd (main_body ?w) = snd (settle p outcome)"
    using m(2) by (simp add: sample_world_fields(7))
qed

section \<open>Reading back what \<open>JSON.stringify\<close> writes\<close>

lemma hex_val_hex_lower: "d < 16 \<Longrightarrow> hex_val (hex_lower d) = Some d"
proof -
  have "list_all (\<lambda>d. hex_val (hex_lower d) = Some d) [0..<16]"
    by code_simp
  then show "d < 16 \<Longrightarrow> hex_val (hex_lower d) = Some d"
    by (simp add: list_all_iff)
qed

lemma hex4_control:
  assumes "n < 32"
  shows "hex4 (CHR ''0'' # CHR ''0'' # hex_lower (n div 16) # hex_lower (n mod 16) # rest)
           = Some n"
proof -
  have a: "hex_val (hex_lower (n div 16)) = Some (n div 16)"
    using assms by (intro hex_val_hex_lower) simp
  have b: "hex_val (hex_lower (n mod 16)) = Some (n mod 16)"
    by (intro hex_val_hex_lower) simp
  have z: "hex_val CHR ''0'' = Some 0" by (simp add: hex_val_def)
  show ?thesis by (simp add: hex4_def a b z)
qed

lemma parse_chars_quote_char:
  "parse_chars (quote_char c @ s) = prepend [c] (parse_chars s)"
proof -
  consider (b) "c = CHR 0x08" | (t) "c = CHR 0x09" | (n) "c = NL" | (f) "c = CHR 0x0C"
    | (r) "c = CHR 0x0D" | (q) "c = DQ" | (s) "c = BSL"
    | (ctl) "c \<notin> {CHR 0x08, CHR 0x09, NL, CHR 0x0C, CHR 0x0D, DQ, BSL}" "of_char c < (32::nat)"
    | (plain) "c \<notin> {CHR 0x08, CHR 0x09, NL, CHR 0x0C, CHR 0x0D, DQ, BSL}" "\<not> of_char c < (32::nat)"
    by blast
  then show ?thesis
  proof cases
    case ctl
    have u: "utf8 (of_char c) = [c]" using ctl(2) by (simp add: utf8_def)
    from ctl show ?thesis
      by (simp add: quote_char_def hex4_control u)
  next
    case plain
    then show ?thesis by (simp add: quote_char_def)
  qed (simp_all add: quote_char_def unescape_def)
qed

lemma parse_chars_quoted:
  "parse_chars (concat (map quote_char s) @ DQ # rest) = Some (s, rest)"
  by (induction s) (simp_all add: parse_chars_quote_char prepend_def)

lemma delimited_not_digit:
  "delimited rest \<Longrightarrow> takeWhile is_digit rest = [] \<and> dropWhile is_digit rest = rest"
  by (cases rest) (auto simp: delimited_def is_digit_def)

lemma digits_then_delimited:
  assumes "dropWhile is_digit xs = []" and "delimited rest"
  shows "takeWhile is_digit (xs @ rest) = xs" and "dropWhile is_digit (xs @ rest) = rest"
proof -
  have a: "\<forall>x \<in> set xs. is_digit x"
    using assms(1) by (simp add: dropWhile_eq_Nil_conv)
  show "takeWhile is_digit (xs @ rest) = xs"
    using a delimited_not_digit[OF assms(2)] by (simp add: takeWhile_append2)
  show "dropWhile is_digit (xs @ rest) = rest"
    using a delimited_not_digit[OF assms(2)] by (simp add: dropWhile_append2)
qed

lemma takeWhile_all: "dropWhile P xs = [] \<Longrightarrow> takeWhile P xs = xs"
  by (simp add: dropWhile_eq_Nil_conv)

lemma lex_exp_append:
  assumes "lex_exp pre s = Some (t, [])" and "delimited rest"
  shows "lex_exp pre (s @ rest) = Some (t, rest)"
proof (cases s)
  case Nil
  then show ?thesis
    using assms by (cases rest) (auto simp: lex_exp_def delimited_def)
next
  case (Cons c r)
  show ?thesis
  proof (cases "c = CHR ''e'' \<or> c = CHR ''E''")
    case False
    then show ?thesis using assms Cons by (simp add: lex_exp_def)
  next
    case True
    define sg where "sg = (case r of [] \<Rightarrow> [] | d # _ \<Rightarrow> if d = CHR ''+'' \<or> d = CHR ''-'' then [d] else [])"
    define r1 where "r1 = drop (length sg) r"
    have e: "lex_exp pre s = (if takeWhile is_digit r1 = [] then None
               else Some (pre @ c # sg @ takeWhile is_digit r1, dropWhile is_digit r1))"
      using True Cons by (simp add: lex_exp_def Let_def sg_def r1_def)
    with assms(1) have ne: "takeWhile is_digit r1 \<noteq> []" and dr: "dropWhile is_digit r1 = []"
      and t: "t = pre @ c # sg @ takeWhile is_digit r1"
      by (auto split: if_splits)
    from ne have "r1 \<noteq> []" by auto
    then have rne: "r \<noteq> []" by (auto simp: r1_def)
    then have sg': "(case r @ rest of [] \<Rightarrow> [] | d # _ \<Rightarrow> if d = CHR ''+'' \<or> d = CHR ''-'' then [d] else []) = sg"
      by (cases r) (simp_all add: sg_def)
    have "length sg \<le> length r"
      using rne by (cases r) (simp_all add: sg_def)
    then have r1': "drop (length sg) (r @ rest) = r1 @ rest"
      by (simp add: r1_def)
    show ?thesis
      using True Cons digits_then_delimited[OF dr assms(2)] ne
      by (simp add: lex_exp_def Let_def sg' r1' t takeWhile_all[OF dr] del: drop_append)
  qed
qed

lemma lex_frac_append:
  assumes "lex_frac pre s = Some (t, [])" and "delimited rest"
  shows "lex_frac pre (s @ rest) = Some (t, rest)"
proof (cases s)
  case Nil
  have "lex_exp pre ([] @ rest) = Some (t, rest)"
    using assms Nil by (intro lex_exp_append) (simp_all add: lex_frac_def)
  then show ?thesis
    using assms(2) Nil by (cases rest) (auto simp: lex_frac_def delimited_def)
next
  case (Cons c r)
  show ?thesis
  proof (cases "c = CHR ''.''")
    case False
    have "lex_exp pre (s @ rest) = Some (t, rest)"
      using assms Cons False by (intro lex_exp_append) (simp_all add: lex_frac_def)
    then show ?thesis using Cons False by (simp add: lex_frac_def)
  next
    case True
    have ne: "takeWhile is_digit r \<noteq> []"
      and e: "lex_exp (pre @ c # takeWhile is_digit r) (dropWhile is_digit r) = Some (t, [])"
      using assms(1) Cons True by (auto simp: lex_frac_def Let_def split: if_splits)
    have f: "r @ rest = takeWhile is_digit r @ (dropWhile is_digit r @ rest)" by simp
    show ?thesis
    proof (cases "dropWhile is_digit r")
      case Nil
      then have tw: "takeWhile is_digit (r @ rest) = r" "dropWhile is_digit (r @ rest) = rest"
        using digits_then_delimited[OF _ assms(2)] by auto
      have "lex_exp (pre @ c # takeWhile is_digit r) ([] @ rest) = Some (t, rest)"
        using e Nil assms(2) by (intro lex_exp_append) simp_all
      then show ?thesis
        using Cons True ne Nil by (simp add: lex_frac_def Let_def tw takeWhile_all)
    next
      case (Cons d r')
      then have nd: "\<not> is_digit d"
        using hd_dropWhile[of is_digit r] by simp
      have "d \<in> set (dropWhile is_digit r)" using Cons by simp
      then have dm: "d \<in> set r" by (rule set_dropWhileD)
      have tw: "takeWhile is_digit (r @ rest) = takeWhile is_digit r"
        "dropWhile is_digit (r @ rest) = dropWhile is_digit r @ rest"
        using dm nd by (simp_all add: takeWhile_append1 dropWhile_append1)
      have "lex_exp (pre @ c # takeWhile is_digit r) (dropWhile is_digit r @ rest) = Some (t, rest)"
        using e assms(2) by (intro lex_exp_append) simp_all
      then show ?thesis
        using \<open>s = c # r\<close> True ne by (simp add: lex_frac_def Let_def tw)
    qed
  qed
qed

lemma lex_int_append:
  assumes "lex_int pre s = Some (t, [])" and "delimited rest"
  shows "lex_int pre (s @ rest) = Some (t, rest)"
proof (cases s)
  case Nil
  then show ?thesis using assms by (simp add: lex_int_def)
next
  case (Cons c r)
  show ?thesis
  proof (cases "c = CHR ''0''")
    case True
    have "lex_frac (pre @ [c]) (r @ rest) = Some (t, rest)"
      using assms Cons True by (intro lex_frac_append) (simp_all add: lex_int_def)
    then show ?thesis using Cons True by (simp add: lex_int_def)
  next
    case False
    have dg: "is_digit c"
      and e: "lex_frac (pre @ c # takeWhile is_digit r) (dropWhile is_digit r) = Some (t, [])"
      using assms(1) Cons False by (auto simp: lex_int_def split: if_splits)
    show ?thesis
    proof (cases "dropWhile is_digit r")
      case Nil
      then have tw: "takeWhile is_digit (r @ rest) = r" "dropWhile is_digit (r @ rest) = rest"
        using digits_then_delimited[OF _ assms(2)] by auto
      have "lex_frac (pre @ c # takeWhile is_digit r) ([] @ rest) = Some (t, rest)"
        using e Nil assms(2) by (intro lex_frac_append) simp_all
      then show ?thesis
        using \<open>s = c # r\<close> False dg Nil by (simp add: lex_int_def tw takeWhile_all)
    next
      case (Cons d r')
      then have nd: "\<not> is_digit d"
        using hd_dropWhile[of is_digit r] by simp
      have "d \<in> set (dropWhile is_digit r)" using Cons by simp
      then have dm: "d \<in> set r" by (rule set_dropWhileD)
      have tw: "takeWhile is_digit (r @ rest) = takeWhile is_digit r"
        "dropWhile is_digit (r @ rest) = dropWhile is_digit r @ rest"
        using dm nd by (simp_all add: takeWhile_append1 dropWhile_append1)
      have "lex_frac (pre @ c # takeWhile is_digit r) (dropWhile is_digit r @ rest)
              = Some (t, rest)"
        using e assms(2) by (intro lex_frac_append) simp_all
      then show ?thesis
        using \<open>s = c # r\<close> False dg by (simp add: lex_int_def tw)
    qed
  qed
qed

lemma lex_number_append:
  assumes "lex_number s = Some (t, [])" and "delimited rest"
  shows "lex_number (s @ rest) = Some (t, rest)"
proof (cases s)
  case Nil
  then show ?thesis using assms by (simp add: lex_number_def)
next
  case (Cons c r)
  show ?thesis
  proof (cases "c = CHR ''-''")
    case True
    have "lex_int [c] (r @ rest) = Some (t, rest)"
      using assms Cons True by (intro lex_int_append) (simp_all add: lex_number_def)
    then show ?thesis using Cons True by (simp add: lex_number_def)
  next
    case False
    have "lex_int [] (s @ rest) = Some (t, rest)"
      using assms Cons False by (intro lex_int_append) (simp_all add: lex_number_def)
    then show ?thesis using Cons False by (simp add: lex_number_def)
  qed
qed

lemma lex_number_head:
  assumes "lex_number s = Some r"
  shows "\<exists>c s'. s = c # s' \<and> (c = CHR ''-'' \<or> is_digit c)"
proof (cases s)
  case Nil
  then show ?thesis using assms by (simp add: lex_number_def)
next
  case (Cons c s')
  then show ?thesis
    using assms
    by (cases "c = CHR ''-''") (auto simp: lex_number_def lex_int_def is_digit_def split: if_splits)
qed

lemma skip_ws_prefix: "list_all is_ws w \<Longrightarrow> skip_ws (w @ s) = skip_ws s"
  by (simp add: skip_ws_def list_all_iff dropWhile_append2)

lemma skip_ws_stop: "\<not> is_ws c \<Longrightarrow> skip_ws (c # s) = c # s"
  by (simp add: skip_ws_def)

lemma skip_ws_NL: "skip_ws (NL # s) = skip_ws s"
  by (simp add: skip_ws_def is_ws_def)

lemma skip_ws_idem: "skip_ws (skip_ws s) = skip_ws s"
  by (simp add: skip_ws_def dropWhile_idem)

lemma text_head:
  assumes "representable nts nol v" and "SerializeJSONProperty nts ind v = Some t"
  shows "\<exists>c t'. t = c # t' \<and> \<not> is_ws c \<and> c \<noteq> CHR '']'' \<and> c \<noteq> CHR ''}''"
proof (cases v)
  case (JNum n)
  then obtain u where u: "nts n = Some u" "lex_number u = Some (u, [])" "t = u"
    using assms by (auto split: option.splits)
  from lex_number_head[OF u(2)] show ?thesis
    unfolding u(3) by (auto simp: is_ws_def is_digit_def)
next
  case (JArr xs)
  then show ?thesis using assms by (auto simp: Let_def is_ws_def)
next
  case (JObj ms)
  then show ?thesis using assms by (auto simp: Let_def is_ws_def)
qed (use assms in \<open>auto simp: is_ws_def QuoteJSONString_def\<close>)

lemma text_defined:
  "representable nts nol v \<Longrightarrow> \<exists>t. SerializeJSONProperty nts ind v = Some t"
  by (cases v) (simp_all add: Let_def)

lemma join_Cons: "join sep (t # ts) = t @ (if ts = [] then [] else sep @ join sep ts)"
  by (cases ts) simp_all

lemma elements_head:
  assumes "representable_elements nts nol xs" and "xs \<noteq> []"
  shows "\<exists>c J. join sep (SerializeJSONElements nts ind xs) = c # J
               \<and> \<not> is_ws c \<and> c \<noteq> CHR '']''"
proof -
  obtain x xs' where x: "xs = x # xs'" using assms(2) by (cases xs) auto
  then have r: "representable nts nol x" using assms(1) by simp
  obtain t where t: "SerializeJSONProperty nts ind x = Some t"
    using text_defined[OF r] by blast
  from text_head[OF r t] show ?thesis
    unfolding x by (auto simp: t join_Cons)
qed

lemma members_head:
  assumes "representable_members nts nol ms" and "ms \<noteq> []"
  shows "\<exists>J. join sep (SerializeJSONMembers nts ind ms) = DQ # J"
proof -
  obtain m ms' where m: "ms = m # ms'" using assms(2) by (cases ms) auto
  then have r: "representable nts nol (snd m)" using assms(1) by simp
  obtain t where t: "SerializeJSONProperty nts ind (snd m) = Some t"
    using text_defined[OF r] by blast
  show ?thesis
    unfolding m by (simp add: t join_Cons QuoteJSONString_def)
qed

lemma elements_empty:
  "(SerializeJSONElements nts ind xs = []) = (xs = [])"
  by (cases xs) simp_all

lemma members_empty:
  "representable_members nts nol ms \<Longrightarrow> (SerializeJSONMembers nts ind ms = []) = (ms = [])"
proof (cases ms)
  case (Cons m ms')
  assume "representable_members nts nol ms"
  then have "representable nts nol (snd m)" using Cons by simp
  from text_defined[OF this, of ind] show ?thesis using Cons by auto
qed simp

lemma reads_leaf:
  assumes "representable nts nol v" and "\<forall>xs. v \<noteq> JArr xs" and "\<forall>ms. v \<noteq> JObj ms"
  shows "reads_value nts nol ind v"
  unfolding reads_value_def
proof (intro allI impI)
  fix fuel s rest
  assume f: "calls v \<le> fuel" and d: "delimited rest"
    and s: "skip_ws s = the (SerializeJSONProperty nts ind v) @ rest"
  from f obtain f' where fuel: "fuel = Suc f'"
    using assms(2,3) by (cases fuel; cases v) auto
  show "parse_value nol fuel s = Some (v, rest)"
  proof (cases v)
    case JUndefined
    then show ?thesis using assms(1) by simp
  next
    case JNull
    then show ?thesis using s by (simp add: fuel strip_prefix_def is_digit_def)
  next
    case (JBool b)
    then show ?thesis using s by (cases b) (simp_all add: fuel strip_prefix_def is_digit_def)
  next
    case (JNum n)
    then obtain t where t: "nts n = Some t" "lex_number t = Some (t, [])" "nol t = n"
      using assms(1) by (auto split: option.splits)
    obtain c t' where c: "t = c # t'" "c = CHR ''-'' \<or> is_digit c"
      using lex_number_head[OF t(2)] by blast
    have l: "lex_number (c # t' @ rest) = Some (t, rest)"
      using lex_number_append[OF t(2) d] c(1) by simp
    have nc: "c \<noteq> CHR ''{''" "c \<noteq> CHR ''[''" "c \<noteq> DQ"
      using c(2) by (auto simp: is_digit_def)
    from s have "skip_ws s = c # t' @ rest" by (simp add: JNum t(1) c(1))
    then show ?thesis
      using nc c(2) l by (simp add: fuel JNum t(3))
  next
    case (JStr x)
    then show ?thesis
      using s by (simp add: fuel QuoteJSONString_def parse_chars_quoted)
  next
    case (JArr xs)
    then show ?thesis using assms(2) by simp
  next
    case (JObj ms)
    then show ?thesis using assms(3) by simp
  qed
qed

lemma ws_indent: "list_all is_ws ind \<Longrightarrow> list_all is_ws (NL # ind @ ''  '')"
  by (simp add: is_ws_def)

lemma reads_array:
  assumes ws: "list_all is_ws ind"
    and rep: "representable_elements nts nol xs"
    and ih: "xs \<noteq> [] \<Longrightarrow> reads_elements nts nol (ind @ ''  '') xs"
  shows "reads_value nts nol ind (JArr xs)"
  unfolding reads_value_def
proof (intro allI impI)
  fix fuel s rest
  assume f: "calls (JArr xs) \<le> fuel" and d: "delimited rest"
    and s: "skip_ws s = the (SerializeJSONProperty nts ind (JArr xs)) @ rest"
  from f obtain f' where fuel: "fuel = Suc f'" and f': "calls_elements xs \<le> f'"
    by (cases fuel) auto
  show "parse_value nol fuel s = Some (JArr xs, rest)"
  proof (cases "xs = []")
    case True
    then have "skip_ws s = CHR ''['' # CHR '']'' # rest" using s by simp
    then show ?thesis
      by (simp add: fuel True skip_ws_stop is_ws_def)
  next
    case False
    define J where "J = join (CHR '','' # NL # ind @ ''  '')
                          (SerializeJSONElements nts (ind @ ''  '') xs)"
    define close where "close = ind @ CHR '']'' # rest"
    obtain c J' where c: "J = c # J'" "\<not> is_ws c" "c \<noteq> CHR '']''"
      using elements_head[OF rep False] unfolding J_def by blast
    have s': "skip_ws s = CHR ''['' # (NL # ind @ ''  '') @ J @ NL # close"
      using s False by (simp add: Let_def elements_empty J_def close_def)
    have a: "skip_ws ((NL # ind @ ''  '') @ J @ NL # close) = c # J' @ NL # close"
      unfolding skip_ws_prefix[OF ws_indent[OF ws]] by (simp add: c skip_ws_stop)
    have cl: "skip_ws close = CHR '']'' # rest"
      unfolding close_def skip_ws_prefix[OF ws] by (simp add: skip_ws_stop is_ws_def)
    have b: "skip_ws (c # J' @ NL # close) = J @ NL # close"
      by (simp add: c skip_ws_stop)
    have "parse_elements nol f' (c # J' @ NL # close) [] = Some (JArr ([] @ xs), rest)"
      using ih[OF False] f' b cl unfolding reads_elements_def J_def by blast
    then show ?thesis
      unfolding fuel parse_value.simps s' using a c(3) by simp
  qed
qed

lemma reads_elements_Cons:
  assumes ws: "list_all is_ws ind"
    and rx: "representable nts nol x" and rxs: "representable_elements nts nol xs"
    and ihx: "reads_value nts nol ind x"
    and ih: "xs \<noteq> [] \<Longrightarrow> reads_elements nts nol ind xs"
  shows "reads_elements nts nol ind (x # xs)"
  unfolding reads_elements_def
proof (intro allI impI)
  fix fuel s acc close rest
  assume f: "calls_elements (x # xs) \<le> fuel"
    and s: "skip_ws s = join (CHR '','' # NL # ind) (SerializeJSONElements nts ind (x # xs))
                        @ NL # close"
    and cl: "skip_ws close = CHR '']'' # rest"
  from f obtain f' where fuel: "fuel = Suc f'" and fx: "calls x \<le> f'"
    and fxs: "calls_elements xs \<le> f'"
    by (cases fuel) auto
  obtain t where t: "SerializeJSONProperty nts ind x = Some t"
    using text_defined[OF rx] by blast
  show "parse_elements nol fuel s acc = Some (JArr (acc @ x # xs), rest)"
  proof (cases "xs = []")
    case True
    have "skip_ws s = the (SerializeJSONProperty nts ind x) @ NL # close"
      using s True by (simp add: t)
    then have "parse_value nol f' s = Some (x, NL # close)"
      using ihx fx unfolding reads_value_def by (simp add: delimited_def)
    then show ?thesis
      by (simp add: fuel True skip_ws_NL cl)
  next
    case False
    define J where "J = join (CHR '','' # NL # ind) (SerializeJSONElements nts ind xs)"
    obtain c J' where c: "J = c # J'" "\<not> is_ws c"
      using elements_head[OF rxs False] unfolding J_def by blast
    have "skip_ws s = the (SerializeJSONProperty nts ind x)
                      @ CHR '','' # (NL # ind) @ J @ NL # close"
      using s False by (simp add: t join_Cons elements_empty J_def)
    then have p: "parse_value nol f' s = Some (x, CHR '','' # (NL # ind) @ J @ NL # close)"
      using ihx fx unfolding reads_value_def by (simp add: delimited_def)
    have w: "list_all is_ws (NL # ind)" using ws by (simp add: is_ws_def)
    have "skip_ws ((NL # ind) @ J @ NL # close) = J @ NL # close"
      unfolding skip_ws_prefix[OF w] by (simp add: c skip_ws_stop)
    then have "parse_elements nol f' ((NL # ind) @ J @ NL # close) (acc @ [x])
                 = Some (JArr ((acc @ [x]) @ xs), rest)"
      using ih[OF False] fxs cl unfolding reads_elements_def J_def by blast
    then show ?thesis
      by (simp add: fuel p skip_ws_stop is_ws_def)
  qed
qed

lemma update_fresh: "k \<notin> fst ` set acc \<Longrightarrow> AList.update k v acc = acc @ [(k, v)]"
  by (induction acc) auto

lemma reads_object:
  assumes ws: "list_all is_ws ind"
    and rep: "representable_members nts nol ms" and dist: "distinct (map fst ms)"
    and ih: "ms \<noteq> [] \<Longrightarrow> reads_members nts nol (ind @ ''  '') ms"
  shows "reads_value nts nol ind (JObj ms)"
  unfolding reads_value_def
proof (intro allI impI)
  fix fuel s rest
  assume f: "calls (JObj ms) \<le> fuel" and d: "delimited rest"
    and s: "skip_ws s = the (SerializeJSONProperty nts ind (JObj ms)) @ rest"
  from f obtain f' where fuel: "fuel = Suc f'" and f': "calls_members ms \<le> f'"
    by (cases fuel) auto
  show "parse_value nol fuel s = Some (JObj ms, rest)"
  proof (cases "ms = []")
    case True
    then have "skip_ws s = CHR ''{'' # CHR ''}'' # rest" using s by simp
    then show ?thesis
      by (simp add: fuel True skip_ws_stop is_ws_def)
  next
    case False
    define J where "J = join (CHR '','' # NL # ind @ ''  '')
                          (SerializeJSONMembers nts (ind @ ''  '') ms)"
    define close where "close = ind @ CHR ''}'' # rest"
    obtain J' where c: "J = DQ # J'"
      using members_head[OF rep False] unfolding J_def by blast
    have s': "skip_ws s = CHR ''{'' # (NL # ind @ ''  '') @ J @ NL # close"
      using s False by (simp add: Let_def members_empty[OF rep] J_def close_def)
    have a: "skip_ws ((NL # ind @ ''  '') @ J @ NL # close) = DQ # J' @ NL # close"
      unfolding skip_ws_prefix[OF ws_indent[OF ws]] by (simp add: c skip_ws_stop is_ws_def)
    have cl: "skip_ws close = CHR ''}'' # rest"
      unfolding close_def skip_ws_prefix[OF ws] by (simp add: skip_ws_stop is_ws_def)
    have b: "skip_ws (DQ # J' @ NL # close) = J @ NL # close"
      by (simp add: c skip_ws_stop is_ws_def)
    have "parse_members nol f' (DQ # J' @ NL # close) [] = Some (JObj ([] @ ms), rest)"
      using ih[OF False] f' b cl dist unfolding reads_members_def J_def by simp
    then show ?thesis
      unfolding fuel parse_value.simps s' using a by simp
  qed
qed

lemma reads_members_Cons:
  assumes ws: "list_all is_ws ind"
    and rv: "representable nts nol (snd m)" and rms: "representable_members nts nol ms"
    and ihv: "reads_value nts nol ind (snd m)"
    and ih: "ms \<noteq> [] \<Longrightarrow> reads_members nts nol ind ms"
  shows "reads_members nts nol ind (m # ms)"
  unfolding reads_members_def
proof (intro allI impI)
  fix fuel s acc close rest
  assume f: "calls_members (m # ms) \<le> fuel"
    and dist: "distinct (map fst (acc @ m # ms))"
    and s: "skip_ws s = join (CHR '','' # NL # ind) (SerializeJSONMembers nts ind (m # ms))
                        @ NL # close"
    and cl: "skip_ws close = CHR ''}'' # rest"
  from f obtain f' where fuel: "fuel = Suc f'" and fv: "calls (snd m) \<le> f'"
    and fms: "calls_members ms \<le> f'"
    by (cases fuel) auto
  obtain t where t: "SerializeJSONProperty nts ind (snd m) = Some t"
    using text_defined[OF rv] by blast
  obtain c t' where c: "t = c # t'" "\<not> is_ws c"
    using text_head[OF rv t] by blast
  have fresh: "fst m \<notin> fst ` set acc" using dist by auto
  have upd: "AList.update (fst m) (snd m) acc = acc @ [m]"
    using update_fresh[OF fresh] by simp
  define after where "after = (if ms = [] then NL # close
       else CHR '','' # (NL # ind)
            @ join (CHR '','' # NL # ind) (SerializeJSONMembers nts ind ms) @ NL # close)"
  have s': "skip_ws s = DQ # concat (map quote_char (fst m))
                        @ DQ # CHR '':'' # CHR '' '' # t @ after"
    using s by (simp add: t join_Cons members_empty[OF rms] QuoteJSONString_def after_def)
  have da: "delimited after" by (simp add: after_def delimited_def)
  have "skip_ws (CHR '' '' # t @ after) = skip_ws (c # t' @ after)"
    by (simp add: c(1) skip_ws_def is_ws_def)
  then have "skip_ws (CHR '' '' # t @ after)
               = the (SerializeJSONProperty nts ind (snd m)) @ after"
    by (simp add: skip_ws_stop[OF c(2)] t c(1))
  then have pv: "parse_value nol f' (CHR '' '' # t @ after) = Some (snd m, after)"
    using ihv fv da unfolding reads_value_def by blast
  have pm: "parse_members nol fuel s acc =
          (case skip_ws after of
             [] \<Rightarrow> None
           | g # r4 \<Rightarrow>
               if g = CHR '','' then parse_members nol f' r4 (AList.update (fst m) (snd m) acc)
               else if g = CHR ''}'' then Some (JObj (AList.update (fst m) (snd m) acc), r4)
               else None)"
    unfolding fuel parse_members.simps s'
    by (simp add: parse_chars_quoted skip_ws_stop is_ws_def pv)
  show "parse_members nol fuel s acc = Some (JObj (acc @ m # ms), rest)"
  proof (cases "ms = []")
    case True
    then show ?thesis
      unfolding pm by (simp add: after_def skip_ws_NL cl upd)
  next
    case False
    define J where "J = join (CHR '','' # NL # ind) (SerializeJSONMembers nts ind ms)"
    obtain J' where j: "J = DQ # J'"
      using members_head[OF rms False] unfolding J_def by blast
    have w: "list_all is_ws (NL # ind)" using ws by (simp add: is_ws_def)
    have sk: "skip_ws ((NL # ind) @ J @ NL # close) = J @ NL # close"
      unfolding skip_ws_prefix[OF w] by (simp add: j skip_ws_stop is_ws_def)
    have "distinct (map fst ((acc @ [m]) @ ms))" using dist by simp
    then have "parse_members nol f' ((NL # ind) @ J @ NL # close) (acc @ [m])
                 = Some (JObj ((acc @ [m]) @ ms), rest)"
      using ih[OF False] fms cl sk unfolding reads_members_def J_def by blast
    then show ?thesis
      unfolding pm using False by (simp add: after_def J_def skip_ws_stop is_ws_def upd)
  qed
qed

lemma reads_all:
  "representable nts nol v \<longrightarrow> list_all is_ws ind \<longrightarrow> reads_value nts nol ind v"
  "representable_elements nts nol xs \<longrightarrow> xs \<noteq> [] \<longrightarrow> list_all is_ws ind
     \<longrightarrow> reads_elements nts nol ind xs"
  "representable_members nts nol ms \<longrightarrow> ms \<noteq> [] \<longrightarrow> list_all is_ws ind
     \<longrightarrow> reads_members nts nol ind ms"
proof (induction nts ind v and nts ind xs and nts ind ms
    rule: SerializeJSONProperty_SerializeJSONElements_SerializeJSONMembers.induct)
  case (6 nts ind xs)
  show ?case
  proof (intro impI)
    assume r: "representable nts nol (JArr xs)" and w: "list_all is_ws ind"
    have w': "list_all is_ws (ind @ ''  '')" using w by (simp add: is_ws_def)
    show "reads_value nts nol ind (JArr xs)"
      using r w' 6 by (intro reads_array[OF w]) simp_all
  qed
next
  case (7 nts ind ms)
  show ?case
  proof (intro impI)
    assume r: "representable nts nol (JObj ms)" and w: "list_all is_ws ind"
    have w': "list_all is_ws (ind @ ''  '')" using w by (simp add: is_ws_def)
    show "reads_value nts nol ind (JObj ms)"
      using r w' 7 by (intro reads_object[OF w]) simp_all
  qed
next
  case (9 nts ind x xs)
  show ?case
  proof (intro impI)
    assume r: "representable_elements nts nol (x # xs)" and w: "list_all is_ws ind"
    show "reads_elements nts nol ind (x # xs)"
      using r w 9 by (intro reads_elements_Cons[OF w]) simp_all
  qed
next
  case (11 nts ind m ms)
  show ?case
  proof (intro impI)
    assume r: "representable_members nts nol (m # ms)" and w: "list_all is_ws ind"
    then have rv: "representable nts nol (snd m)" by simp
    obtain t where t: "SerializeJSONProperty nts ind (snd m) = Some t"
      using text_defined[OF rv] by blast
    show "reads_members nts nol ind (m # ms)"
      using r w 11(1) 11(3)[OF t] by (intro reads_members_Cons[OF w]) simp_all
  qed
qed (simp_all add: reads_leaf)

lemma calls_bound:
  "representable nts nol v \<longrightarrow> calls v \<le> length (the (SerializeJSONProperty nts ind v))"
  "representable_elements nts nol xs
     \<longrightarrow> calls_elements xs
         \<le> Suc (length (join (CHR '','' # NL # ind) (SerializeJSONElements nts ind xs)))"
  "representable_members nts nol ms
     \<longrightarrow> calls_members ms
         \<le> Suc (length (join (CHR '','' # NL # ind) (SerializeJSONMembers nts ind ms)))"
proof (induction nts ind v and nts ind xs and nts ind ms
    rule: SerializeJSONProperty_SerializeJSONElements_SerializeJSONMembers.induct)
  case (4 nts ind n)
  show ?case
  proof
    assume r: "representable nts nol (JNum n)"
    obtain t where t: "SerializeJSONProperty nts ind (JNum n) = Some t"
      using text_defined[OF r] by blast
    from text_head[OF r t] show "calls (JNum n) \<le> length (the (SerializeJSONProperty nts ind (JNum n)))"
      unfolding t by auto
  qed
next
  case (6 nts ind xs)
  then show ?case by (auto simp: Let_def elements_empty)
next
  case (7 nts ind ms)
  then show ?case by (auto simp: Let_def members_empty)
next
  case (9 nts ind x xs)
  show ?case
  proof
    assume r: "representable_elements nts nol (x # xs)"
    then have rx: "representable nts nol x"
      and rxs: "representable_elements nts nol xs" by simp_all
    obtain t where t: "SerializeJSONProperty nts ind x = Some t"
      using text_defined[OF rx] by blast
    have a: "calls x \<le> length t" using 9(1) rx t by simp
    have b: "calls_elements xs
         \<le> Suc (length (join (CHR '','' # NL # ind) (SerializeJSONElements nts ind xs)))"
      using 9(2) rxs by simp
    show "calls_elements (x # xs)
         \<le> Suc (length (join (CHR '','' # NL # ind) (SerializeJSONElements nts ind (x # xs))))"
      using a b by (simp add: t join_Cons elements_empty)
  qed
next
  case (11 nts ind m ms)
  show ?case
  proof
    assume r: "representable_members nts nol (m # ms)"
    then have rv: "representable nts nol (snd m)"
      and rms: "representable_members nts nol ms" by simp_all
    obtain t where t: "SerializeJSONProperty nts ind (snd m) = Some t"
      using text_defined[OF rv] by blast
    have a: "calls (snd m) \<le> length t" using 11(1) rv t by simp
    have b: "calls_members ms
         \<le> Suc (length (join (CHR '','' # NL # ind) (SerializeJSONMembers nts ind ms)))"
      using 11(3)[OF t] rms by simp
    show "calls_members (m # ms)
         \<le> Suc (length (join (CHR '','' # NL # ind) (SerializeJSONMembers nts ind (m # ms))))"
      using a b by (simp add: t join_Cons members_empty[OF rms])
  qed
qed (simp_all add: QuoteJSONString_def)

lemma stringify_parse:
  assumes "representable nts nol v"
  shows "\<exists>t. JSON_stringify nts v = Some t \<and> JSON_parse nol t = Some v"
proof -
  obtain t where t: "SerializeJSONProperty nts [] v = Some t"
    using text_defined[OF assms] by blast
  obtain c t' where c: "t = c # t'" "\<not> is_ws c"
    using text_head[OF assms t] by blast
  have f: "calls v \<le> Suc (length t)"
    using calls_bound(1)[of nts nol v "[]"] assms t by simp
  have s: "skip_ws t = the (SerializeJSONProperty nts [] v) @ []"
    by (simp add: t c skip_ws_stop)
  have "reads_value nts nol [] v"
    using reads_all(1)[of nts nol v "[]"] assms by simp
  then have "parse_value nol (Suc (length t)) t = Some (v, [])"
    using f s unfolding reads_value_def by (simp add: delimited_def del: parse_value.simps)
  then show ?thesis
    by (simp add: JSON_stringify_def JSON_parse_def t skip_ws_def del: parse_value.simps)
qed

subsection \<open>The integral instance of the Number parameter\<close>

text \<open>
  Every integer prints as a number token that reads back as itself, so the condition on
  numbers in \<open>representable\<close> holds of every integral Number of the instance.
\<close>

lemma digit_char_is_digit: "d < 10 \<Longrightarrow> is_digit (digit_char d)"
  unfolding is_digit_def digit_char_def by (intro nth_mem) simp

lemma digit_val_digit_char: "d < 10 \<Longrightarrow> digit_val (digit_char d) = d"
proof -
  have "list_all (\<lambda>d. digit_val (digit_char d) = d) [0..<10]"
    by code_simp
  then show "d < 10 \<Longrightarrow> digit_val (digit_char d) = d"
    by (simp add: list_all_iff)
qed

lemma digit_char_zero: "d < 10 \<Longrightarrow> (digit_char d = CHR ''0'') = (d = 0)"
proof -
  have "list_all (\<lambda>d. (digit_char d = CHR ''0'') = (d = 0)) [0..<10]"
    by code_simp
  then show "d < 10 \<Longrightarrow> (digit_char d = CHR ''0'') = (d = 0)"
    by (simp add: list_all_iff)
qed

lemma string_of_nat_digits: "list_all is_digit (string_of_nat n)"
proof (induction n rule: string_of_nat.induct)
  case (1 n)
  show ?case
  proof (cases "n < 10")
    case True
    then show ?thesis by (simp add: digit_char_is_digit)
  next
    case False
    then show ?thesis
      using 1 by (subst string_of_nat.simps) (simp add: digit_char_is_digit)
  qed
qed

lemma string_of_nat_head:
  "\<exists>c r. string_of_nat n = c # r \<and> (c = CHR ''0'' \<longrightarrow> n = 0 \<and> r = [])"
proof (induction n rule: string_of_nat.induct)
  case (1 n)
  show ?case
  proof (cases "n < 10")
    case True
    then show ?thesis by (simp add: digit_char_zero)
  next
    case False
    then obtain c r where "string_of_nat (n div 10) = c # r"
      "c = CHR ''0'' \<longrightarrow> n div 10 = 0 \<and> r = []"
      using 1 by blast
    moreover have "n div 10 \<noteq> 0" using False by simp
    ultimately show ?thesis
      using False by (subst string_of_nat.simps) auto
  qed
qed

lemma nat_of_digits_snoc: "nat_of_digits (ds @ [c]) = 10 * nat_of_digits ds + digit_val c"
  by (simp add: nat_of_digits_def)

lemma nat_of_digits_string_of_nat: "nat_of_digits (string_of_nat n) = n"
proof (induction n rule: string_of_nat.induct)
  case (1 n)
  show ?case
  proof (cases "n < 10")
    case True
    then show ?thesis by (simp add: nat_of_digits_def digit_val_digit_char)
  next
    case False
    then show ?thesis
      using 1 by (subst string_of_nat.simps) (simp add: nat_of_digits_snoc digit_val_digit_char)
  qed
qed

lemma lex_int_string_of_nat: "lex_int pre (string_of_nat n) = Some (pre @ string_of_nat n, [])"
proof -
  obtain c r where s: "string_of_nat n = c # r" "c = CHR ''0'' \<longrightarrow> n = 0 \<and> r = []"
    using string_of_nat_head by blast
  have d: "is_digit c" "list_all is_digit r"
    using string_of_nat_digits[of n] unfolding s by simp_all
  then have t: "takeWhile is_digit r = r" "dropWhile is_digit r = []"
    by (simp_all add: list_all_iff)
  show ?thesis
    unfolding s using s(2) d(1)
    by (auto simp: lex_int_def lex_frac_def lex_exp_def t)
qed

lemma integer_round_trip:
  "lex_number (string_of_int i) = Some (string_of_int i, [])"
  "jsnum_of_literal (string_of_int i) = Integer i"
proof -
  obtain c r where s: "string_of_nat (nat i) = c # r"
    using string_of_nat_head by blast
  have "is_digit c" using string_of_nat_digits[of "nat i"] unfolding s by simp
  then have nm: "c \<noteq> CHR ''-''" by (auto simp: is_digit_def)
  show "lex_number (string_of_int i) = Some (string_of_int i, [])"
  proof (cases "i < 0")
    case True
    then show ?thesis
      using lex_int_string_of_nat[of "[CHR ''-'']"] by (simp add: string_of_int_def lex_number_def del: string_of_nat.simps)
  next
    case False
    then show ?thesis
      using lex_int_string_of_nat[of "[]" "nat i"] nm
      by (simp add: string_of_int_def lex_number_def s del: string_of_nat.simps)
  qed
  show "jsnum_of_literal (string_of_int i) = Integer i"
  proof (cases "i < 0")
    case True
    have "string_of_nat (nat (- i)) \<noteq> []"
      using string_of_nat_head[of "nat (- i)"] by auto
    then show ?thesis
      using True string_of_nat_digits[of "nat (- i)"]
      by (simp add: string_of_int_def jsnum_of_literal_def nat_of_digits_string_of_nat
          del: string_of_nat.simps)
  next
    case False
    have "nat_of_digits (c # r) = nat i"
      using nat_of_digits_string_of_nat[of "nat i"] unfolding s .
    moreover have "list_all is_digit (c # r)"
      using string_of_nat_digits[of "nat i"] unfolding s .
    ultimately show ?thesis
      using False nm
      by (simp add: string_of_int_def jsnum_of_literal_def s del: string_of_nat.simps)
  qed
qed

lemma integer_representable: "representable jsnum_toString jsnum_of_literal (JNum (Integer i))"
  by (simp add: integer_round_trip)


section \<open>The claims\<close>

text \<open>
  C1, as amended. When js-yaml reads the content of a \<open>.yaml\<close> or \<open>.yml\<close> file as
  one document whose value tree is representable (null, booleans, finite numbers whose
  text reads back as themselves, strings, arrays, and objects with distinct keys),
  \<open>convertYamlToJson\<close> returns a text, \<open>processOASFile\<close> makes it the payload, and
  \<open>JSON.parse\<close> reads that text back as the same tree.
\<close>

theorem yaml_round_trip:
  assumes "yaml_load w (content fd) = Inr v"
    and "representable (numberToString w) (stringToNumber w) v"
    and "extension fd = ''.yaml'' \<or> extension fd = ''.yml''"
  shows "\<exists>t. convertYamlToJson w (content fd) = Inr (Some t)
             \<and> snd (processOASFile w fd)
               = Inr (file_data.extend fd
                        (processed_file_data.fields (Some t)
                           (replace_yaml_ext (fileName fd))))
             \<and> JSON_parse (stringToNumber w) t = Some v"
proof -
  obtain t where t: "JSON_stringify (numberToString w) v = Some t"
    and p: "JSON_parse (stringToNumber w) t = Some v"
    using stringify_parse[OF assms(2)] by blast
  have c: "convertYamlToJson w (content fd) = Inr (Some t)"
    using assms(1) t by (simp add: convertYamlToJson_def)
  have "snd (processOASFile w fd)
          = Inr (file_data.extend fd
                   (processed_file_data.fields (Some t) (replace_yaml_ext (fileName fd))))"
    using assms(3) c by (auto simp: processOASFile_def)
  with c p show ?thesis by blast
qed

theorem yaml_round_trip_witness:
  "yaml_load world_servers_yaml ''servers: [{port: 8080, tls: true}]''
     = Inr (JObj [(''servers'',
                   JArr [JObj [(''port'', JNum (Integer 8080)), (''tls'', JBool True)]])])
   \<and> representable (numberToString world_servers_yaml) (stringToNumber world_servers_yaml)
         (JObj [(''servers'',
                 JArr [JObj [(''port'', JNum (Integer 8080)), (''tls'', JBool True)]])])
   \<and> (\<exists>t. snd (processOASFile world_servers_yaml
                   \<lparr>content = ''servers: [{port: 8080, tls: true}]'', extension = ''.yaml'',
                    fileName = ''api.yaml'', size_bytes = 34\<rparr>)
              = Inr \<lparr>content = ''servers: [{port: 8080, tls: true}]'', extension = ''.yaml'',
                     fileName = ''api.yaml'', size_bytes = 34,
                     processedContent = Some t, processedFileName = ''api.json''\<rparr>
            \<and> JSON_parse (stringToNumber world_servers_yaml) t
              = Some (JObj [(''servers'',
                             JArr [JObj [(''port'', JNum (Integer 8080)),
                                         (''tls'', JBool True)]])]))"
proof -
  let ?fd = "\<lparr>content = ''servers: [{port: 8080, tls: true}]'', extension = ''.yaml'',
              fileName = ''api.yaml'', size_bytes = 34\<rparr>"
  let ?v = "JObj [(''servers'',
                   JArr [JObj [(''port'', JNum (Integer 8080)), (''tls'', JBool True)]])]"
  have h1: "yaml_load world_servers_yaml (content ?fd) = Inr ?v"
    by (simp add: yaml_load_def world_servers_yaml_def world_defs sample_documents_def)
  have n: "numberToString world_servers_yaml = jsnum_toString"
    "stringToNumber world_servers_yaml = jsnum_of_literal"
    by (simp_all add: world_servers_yaml_def world_defs)
  have p: "string_of_int 8080 = ''8080''"
    by (simp add: string_of_int_def digit_char_def)
  have l: "lex_number ''8080'' = Some (''8080'', [])"
    by (simp add: lex_number_def lex_int_def lex_frac_def lex_exp_def is_digit_def)
  have r: "jsnum_of_literal ''8080'' = Integer 8080"
    by (simp add: jsnum_of_literal_def nat_of_digits_def digit_val_def hex_val_def
        is_digit_def)
  have h2: "representable (numberToString world_servers_yaml)
              (stringToNumber world_servers_yaml) ?v"
    unfolding n by (simp add: p l r)
  have h3: "extension ?fd = ''.yaml'' \<or> extension ?fd = ''.yml''" by simp
  have e: "file_data.extend ?fd
             (processed_file_data.fields (Some t) (replace_yaml_ext (fileName ?fd)))
           = \<lparr>content = ''servers: [{port: 8080, tls: true}]'', extension = ''.yaml'',
              fileName = ''api.yaml'', size_bytes = 34,
              processedContent = Some t, processedFileName = ''api.json''\<rparr>" for t
    by (simp add: processed_defs replace_yaml_ext_def endsWith_def)
  from yaml_round_trip[OF h1 h2 h3] h1 h2 show ?thesis
    unfolding e by auto
qed

theorem yaml_round_trip_counterexample:
  "yaml_load world_empty_yaml [] = Inr JUndefined
   \<and> convertYamlToJson world_empty_yaml [] = Inr None
   \<and> yaml_load world_servers_yaml ''ratio: .nan'' = Inr (JObj [(''ratio'', JNum NaN)])
   \<and> convertYamlToJson world_servers_yaml ''ratio: .nan''
       = Inr (Some (''{'' @ [NL] @ ''  '' @ [DQ] @ ''ratio'' @ [DQ] @ '': null'' @ [NL] @ ''}''))
   \<and> JSON_parse (stringToNumber world_servers_yaml)
         (''{'' @ [NL] @ ''  '' @ [DQ] @ ''ratio'' @ [DQ] @ '': null'' @ [NL] @ ''}'')
       = Some (JObj [(''ratio'', JNull)])
   \<and> JObj [(''ratio'', JNull)] \<noteq> JObj [(''ratio'', JNum NaN)]"
  by code_simp

text \<open>
  C2, as amended. A run on a file whose lower-cased extension is \<open>.json\<close>, whose bytes
  are well-formed UTF-8 (reading them as text changes nothing) and whose content
  \<open>JSON.parse\<close> accepts, with a base URL that \<open>new URL\<close> accepts and a token that is a
  legal header value, sends exactly one request; its one file part has the file's bytes,
  unchanged, as body and the file's own name as filename.
\<close>

theorem json_pass_through:
  assumes "getInput w ''brainfish_api_token'' \<noteq> []"
    and "getInput w ''catalog_id'' \<noteq> []"
    and "getInput w ''oas_file_path'' = filePath" and "filePath \<noteq> []"
    and "files w filePath = Some (File bytes)"
    and "utf8_decode bytes = bytes"
    and "toLowerCase (lowerCaseUnicode w) (extname filePath) = ''.json''"
    and "JSON_parse (stringToNumber w) bytes = Some v"
    and "parseURL w (baseUrl_input w) = Some u"
    and "latin1_text header_char (getInput w ''brainfish_api_token'')"
    and "latin1_text header_char (boundary w)"
  shows "snd (readOASFile w filePath)
           = Inr \<lparr>content = bytes, extension = ''.json'',
                  fileName = basename filePath, size_bytes = length bytes\<rparr>
         \<and> snd (processOASFile w
                \<lparr>content = bytes, extension = ''.json'',
                 fileName = basename filePath, size_bytes = length bytes\<rparr>)
           = Inr \<lparr>content = bytes, extension = ''.json'',
                  fileName = basename filePath, size_bytes = length bytes,
                  processedContent = Some bytes,
                  processedFileName = basename filePath\<rparr>
         \<and> map form (requests (main w))
           = [[\<lparr>field = ''file'', filename = basename filePath,
                contentType = ''application/json'', part_body = bytes\<rparr>]]"
proof -
  let ?fd = "\<lparr>content = bytes, extension = ''.json'',
              fileName = basename filePath, size_bytes = length bytes\<rparr>"
  let ?p = "\<lparr>content = bytes, extension = ''.json'',
             fileName = basename filePath, size_bytes = length bytes,
             processedContent = Some bytes,
             processedFileName = basename filePath\<rparr>"
  have r: "snd (readOASFile w filePath) = Inr ?fd"
    using readOASFile_File[OF assms(5)] assms(6,7) by simp
  have p: "snd (processOASFile w ?fd) = Inr ?p"
    using processOASFile_json[of ?fd w v] assms(8) by (simp add: processed_defs)
  have "map form (requests (main w))
          = [[\<lparr>field = ''file'', filename = basename filePath,
               contentType = ''application/json'', part_body = bytes\<rparr>]]"
    using main_body_upload_result(2)[OF assms] by (simp add: requests_main)
  with r p show ?thesis by simp
qed

theorem json_pass_through_witness:
  "getInput (world_json (Response 201 ''ok'')) ''brainfish_api_token'' = ''secret''
   \<and> getInput (world_json (Response 201 ''ok'')) ''catalog_id''
       = ''8a2abadd-1140-4f40-921c-e4a30c6a8238''
   \<and> getInput (world_json (Response 201 ''ok'')) ''oas_file_path'' = ''test/api-spec.JSON''
   \<and> files (world_json (Response 201 ''ok'')) ''test/api-spec.JSON'' = Some (File ''{ }'')
   \<and> utf8_decode ''{ }'' = ''{ }''
   \<and> toLowerCase (lowerCaseUnicode (world_json (Response 201 ''ok'')))
         (extname ''test/api-spec.JSON'') = ''.json''
   \<and> JSON_parse (stringToNumber (world_json (Response 201 ''ok''))) ''{ }'' = Some (JObj [])
   \<and> parseURL (world_json (Response 201 ''ok'')) (baseUrl_input (world_json (Response 201 ''ok'')))
       = Some \<lparr>protocol = ''https:'', url_hostname = ''app.brainfi.sh'', url_port = []\<rparr>
   \<and> latin1_text header_char ''secret''
   \<and> latin1_text header_char (boundary (world_json (Response 201 ''ok'')))
   \<and> map form (requests (main (world_json (Response 201 ''ok''))))
       = [[\<lparr>field = ''file'', filename = ''api-spec.JSON'',
            contentType = ''application/json'', part_body = ''{ }''\<rparr>]]"
proof -
  let ?w = "world_json (Response 201 ''ok'')"
  have i1: "getInput ?w ''brainfish_api_token'' = ''secret''"
    and i2: "getInput ?w ''catalog_id'' = ''8a2abadd-1140-4f40-921c-e4a30c6a8238''"
    and h3: "getInput ?w ''oas_file_path'' = ''test/api-spec.JSON''"
    and h4: "''test/api-spec.JSON'' \<noteq> []"
    and h5: "files ?w ''test/api-spec.JSON'' = Some (File ''{ }'')"
    by (simp_all add: world_json_def world_defs)
  have h1: "getInput ?w ''brainfish_api_token'' \<noteq> []"
    and h2: "getInput ?w ''catalog_id'' \<noteq> []"
    by (simp_all add: i1 i2)
  have h6: "utf8_decode ''{ }'' = ''{ }''"
    by (simp add: utf8_decode_ascii is_ascii_def)
  have h7: "toLowerCase (lowerCaseUnicode ?w) (extname ''test/api-spec.JSON'') = ''.json''"
    by (simp add: path_defs)
  have h8: "JSON_parse (stringToNumber ?w) ''{ }'' = Some (JObj [])"
    by code_simp
  have h9: "parseURL ?w (baseUrl_input ?w)
              = Some \<lparr>protocol = ''https:'', url_hostname = ''app.brainfi.sh'', url_port = []\<rparr>"
    unfolding world_json_def by (rule sample_world_inputs(5))
  have t: "latin1_text header_char ''secret''"
    by (simp add: header_char_def is_ascii_def in_range_def)
  have h10: "latin1_text header_char (getInput ?w ''brainfish_api_token'')"
    unfolding i1 by (rule t)
  have h11: "latin1_text header_char (boundary ?w)"
    unfolding world_json_def by (rule sample_world_inputs(7))
  have b: "basename ''test/api-spec.JSON'' = ''api-spec.JSON''"
    by (simp add: path_defs)
  have m: "map form (requests (main ?w))
       = [[\<lparr>field = ''file'', filename = ''api-spec.JSON'',
            contentType = ''application/json'', part_body = ''{ }''\<rparr>]]"
    using json_pass_through[OF h1 h2 h3 h4 h5 h6 h7 h8 h9 h10 h11] by (simp add: b)
  show ?thesis
    by (intro conjI) (fact i1 i2 h3 h5 h6 h7 h8 h9 t h11 m)+
qed

text \<open>
  Without the condition on the bytes the claim fails. The three bytes \<open>22 FF 22\<close> of
  \<open>openapi.json\<close> are not UTF-8: \<open>readFileSync\<close> reads them as a string that holds the
  replacement character U+FFFD, \<open>JSON.parse\<close> accepts that text, and the part uploaded
  has the five bytes \<open>22 EF BF BD 22\<close>.
\<close>

theorem json_pass_through_counterexample:
  "files world_latin1_json (getInput world_latin1_json ''oas_file_path'')
     = Some (File [DQ, CHR 0xFF, DQ])
   \<and> snd (readOASFile world_latin1_json (getInput world_latin1_json ''oas_file_path''))
     = Inr \<lparr>content = [DQ, CHR 0xEF, CHR 0xBF, CHR 0xBD, DQ], extension = ''.json'',
            fileName = ''openapi.json'', size_bytes = 3\<rparr>
   \<and> JSON_parse (stringToNumber world_latin1_json) [DQ, CHR 0xEF, CHR 0xBF, CHR 0xBD, DQ]
     = Some (JStr [CHR 0xEF, CHR 0xBF, CHR 0xBD])
   \<and> map (map part_body \<circ> form) (requests (main world_latin1_json))
     = [[[DQ, CHR 0xEF, CHR 0xBF, CHR 0xBD, DQ]]]
   \<and> [DQ, CHR 0xEF, CHR 0xBF, CHR 0xBD, DQ] \<noteq> [DQ, CHR 0xFF, DQ]"
proof -
  let ?t = "[DQ, CHR 0xEF, CHR 0xBF, CHR 0xBD, DQ]"
  let ?fd = "\<lparr>content = ?t, extension = ''.json'', fileName = ''openapi.json'',
              size_bytes = 3\<rparr>"
  let ?p = "\<lparr>content = ?t, extension = ''.json'', fileName = ''openapi.json'',
             size_bytes = 3, processedContent = Some ?t,
             processedFileName = ''openapi.json''\<rparr>"
  have i: "getInput world_latin1_json ''oas_file_path'' = ''openapi.json''"
    unfolding world_latin1_json_def by (rule sample_world_inputs(3))
  have f: "files world_latin1_json ''openapi.json'' = Some (File [DQ, CHR 0xFF, DQ])"
    by (simp add: world_latin1_json_def sample_world_fields)
  have d: "utf8_decode [DQ, CHR 0xFF, DQ] = ?t"
    by (simp add: is_ascii_def continuation_ranges_def in_range_def)
  have x: "toLowerCase (lowerCaseUnicode world_latin1_json) (extname ''openapi.json'') = ''.json''"
    by (simp add: path_defs)
  have b: "basename ''openapi.json'' = ''openapi.json''"
    by (simp add: path_defs)
  have r: "snd (readOASFile world_latin1_json (getInput world_latin1_json ''oas_file_path''))
             = Inr ?fd"
    unfolding i readOASFile_File[OF f] d x b by simp
  have j: "JSON_parse (stringToNumber world_latin1_json) ?t
             = Some (JStr [CHR 0xEF, CHR 0xBF, CHR 0xBD])"
    by code_simp
  have p: "snd (processOASFile world_latin1_json ?fd) = Inr ?p"
    using processOASFile_json[of ?fd world_latin1_json] j by (simp add: processed_defs)
  have pc: "processedContent ?p = Some ?t" by simp
  have ne: "''openapi.json'' \<noteq> []" by simp
  note run = sample_run[OF ne r[unfolded world_latin1_json_def]
      p[unfolded world_latin1_json_def] pc, folded world_latin1_json_def]
  have q: "map (map part_body \<circ> form) (requests (main world_latin1_json)) = [[?t]]"
    unfolding run(1) by simp
  have n: "?t \<noteq> [DQ, CHR 0xFF, DQ]" by simp
  show ?thesis
    unfolding i by (intro conjI) (fact f r[unfolded i] j q n)+
qed

text \<open>
  C3, at a file with an upper-case extension. The file \<open>docs/API.YAML\<close> is dispatched
  as YAML, since its extension is compared in lower case, and its content is converted
  to JSON text; the name it is uploaded under is still \<open>API.YAML\<close>, since the pattern
  that renames is case-sensitive.
\<close>

theorem upper_case_extension_not_renamed:
  "snd (readOASFile world_upper_yaml (getInput world_upper_yaml ''oas_file_path''))
     = Inr \<lparr>content = ''openapi: 3.0.0'', extension = ''.yaml'', fileName = ''API.YAML'',
            size_bytes = 14\<rparr>
   \<and> snd (processOASFile world_upper_yaml
          \<lparr>content = ''openapi: 3.0.0'', extension = ''.yaml'', fileName = ''API.YAML'',
           size_bytes = 14\<rparr>)
     = Inr \<lparr>content = ''openapi: 3.0.0'', extension = ''.yaml'', fileName = ''API.YAML'',
            size_bytes = 14,
            processedContent =
              Some (''{'' @ [NL] @ ''  '' @ [DQ] @ ''openapi'' @ [DQ] @ '': ''
                    @ [DQ] @ ''3.0.0'' @ [DQ] @ [NL] @ ''}''),
            processedFileName = ''API.YAML''\<rparr>
   \<and> map (map filename \<circ> form) (requests (main world_upper_yaml)) = [[''API.YAML'']]
   \<and> outputs (main world_upper_yaml)
     = [(''status'', check_mark @ '' OAS file successfully synced to Brainfish!''),
        (''uploaded_file'', ''API.YAML'')]"
proof -
  let ?fd = "\<lparr>content = ''openapi: 3.0.0'', extension = ''.yaml'', fileName = ''API.YAML'',
              size_bytes = 14\<rparr>"
  let ?t = "''{'' @ [NL] @ ''  '' @ [DQ] @ ''openapi'' @ [DQ] @ '': ''
            @ [DQ] @ ''3.0.0'' @ [DQ] @ [NL] @ ''}''"
  let ?p = "\<lparr>content = ''openapi: 3.0.0'', extension = ''.yaml'', fileName = ''API.YAML'',
             size_bytes = 14, processedContent = Some ?t,
             processedFileName = ''API.YAML''\<rparr>"
  have r: "snd (readOASFile world_upper_yaml (getInput world_upper_yaml ''oas_file_path''))
             = Inr ?fd"
    unfolding world_upper_yaml_def
    by (subst sample_world_read[where bytes = "''openapi: 3.0.0''"])
       (simp_all add: path_defs)
  have c: "convertYamlToJson world_upper_yaml ''openapi: 3.0.0'' = Inr (Some ?t)"
    by (simp add: world_upper_yaml_def convertYamlToJson_def yaml_load_def
        sample_world_fields sample_documents_def JSON_stringify_def QuoteJSONString_def
        quote_char_def)
  have p: "snd (processOASFile world_upper_yaml ?fd) = Inr ?p"
    using c by (simp add: processOASFile_def processed_defs replace_yaml_ext_def endsWith_def)
  have pc: "processedContent ?p = Some ?t" by simp
  have ne: "''docs/API.YAML'' \<noteq> []" by simp
  note run = sample_run[OF ne r[unfolded world_upper_yaml_def] p[unfolded world_upper_yaml_def] pc,
      folded world_upper_yaml_def]
  have q: "map (map filename \<circ> form) (requests (main world_upper_yaml)) = [[''API.YAML'']]"
    unfolding run(1) by simp
  have "snd (main_body world_upper_yaml)
          = Inr \<lparr>success = True, statusCode = 201, data = ''ok'',
                 uploadedFileName = ''API.YAML''\<rparr>"
    unfolding run(2) by (simp add: settle_result)
  from main_outputs_resolved[OF this]
  have o: "outputs (main world_upper_yaml)
     = [(''status'', check_mark @ '' OAS file successfully synced to Brainfish!''),
        (''uploaded_file'', ''API.YAML'')]"
    by simp
  show ?thesis
    by (intro conjI) (fact r p q o)+
qed

text \<open>
  C4. Once the request is made, the promise of \<open>uploadToBrainfish\<close> resolves exactly
  when a response arrives whose status is at least 200 and below 300, and then with the
  status, the response text and the uploaded file's name. A response with any other
  status rejects with \<open>Upload failed with status <status>: <body>\<close>, and an error of
  the transport rejects with \<open>Request failed: <message>\<close>.
\<close>

theorem upload_outcome:
  assumes "requests (fst (uploadToBrainfish w fd apiToken catalogId baseUrl)) = [req]"
    and "respond w req = outcome"
  shows "snd (uploadToBrainfish w fd apiToken catalogId baseUrl) =
           (case outcome of
              Response status body \<Rightarrow>
                if 200 \<le> status \<and> status < 300 then
                  Inr \<lparr>success = True, statusCode = status, data = body,
                       uploadedFileName = processedFileName fd\<rparr>
                else Inl (Error (''Upload failed with status '' @ string_of_nat status
                                 @ '': '' @ body))
            | TransportError msg \<Rightarrow> Inl (Error (''Request failed: '' @ msg)))
         \<and> ((\<exists>r. snd (uploadToBrainfish w fd apiToken catalogId baseUrl) = Inr r)
              = (\<exists>status body. outcome = Response status body
                                \<and> 200 \<le> status \<and> status < 300))"
proof -
  have u: "snd (uploadToBrainfish w fd apiToken catalogId baseUrl) = snd (settle fd outcome)"
    using uploadToBrainfish_made(2)[OF assms(1)] assms(2) by simp
  show ?thesis
    unfolding u settle_result by (cases outcome) auto
qed

theorem upload_outcome_witness:
  "snd (uploadToBrainfish (world_json (Response 201 ''created''))
          \<lparr>content = ''{ }'', extension = ''.json'', fileName = ''api-spec.JSON'',
           size_bytes = 3, processedContent = Some ''{ }'',
           processedFileName = ''api-spec.JSON''\<rparr>
          ''secret'' ''my-catalog'' ''https://app.brainfi.sh'')
     = Inr \<lparr>success = True, statusCode = 201, data = ''created'',
            uploadedFileName = ''api-spec.JSON''\<rparr>
   \<and> snd (uploadToBrainfish (world_json (Response 500 ''server error''))
          \<lparr>content = ''{ }'', extension = ''.json'', fileName = ''api-spec.JSON'',
           size_bytes = 3, processedContent = Some ''{ }'',
           processedFileName = ''api-spec.JSON''\<rparr>
          ''secret'' ''my-catalog'' ''https://app.brainfi.sh'')
     = Inl (Error ''Upload failed with status 500: server error'')
   \<and> snd (uploadToBrainfish (world_json (Response 301 ''moved''))
          \<lparr>content = ''{ }'', extension = ''.json'', fileName = ''api-spec.JSON'',
           size_bytes = 3, processedContent = Some ''{ }'',
           processedFileName = ''api-spec.JSON''\<rparr>
          ''secret'' ''my-catalog'' ''https://app.brainfi.sh'')
     = Inl (Error ''Upload failed with status 301: moved'')
   \<and> snd (uploadToBrainfish (world_json (TransportError ''read ECONNRESET''))
          \<lparr>content = ''{ }'', extension = ''.json'', fileName = ''api-spec.JSON'',
           size_bytes = 3, processedContent = Some ''{ }'',
           processedFileName = ''api-spec.JSON''\<rparr>
          ''secret'' ''my-catalog'' ''https://app.brainfi.sh'')
     = Inl (Error ''Request failed: read ECONNRESET'')"
proof -
  let ?p = "\<lparr>content = ''{ }'', extension = ''.json'', fileName = ''api-spec.JSON'',
             size_bytes = 3, processedContent = Some ''{ }'',
             processedFileName = ''api-spec.JSON''\<rparr>"
  have c: "processedContent ?p = Some ''{ }''" by simp
  have u: "parseURL (world_json out) ''https://app.brainfi.sh''
             = Some \<lparr>protocol = ''https:'', url_hostname = ''app.brainfi.sh'',
                     url_port = []\<rparr>" for out
    by (simp add: world_json_def sample_world_fields sample_url_def)
  have t: "latin1_text header_char ''secret''"
    by (simp add: header_char_def is_ascii_def in_range_def)
  have b: "latin1_text header_char (boundary (world_json out))" for out
    unfolding world_json_def by (rule sample_world_inputs(7))
  have o: "respond (world_json out) req = out" for out req
    by (simp add: world_json_def sample_world_fields)
  have "snd (uploadToBrainfish (world_json out) ?p ''secret'' ''my-catalog''
               ''https://app.brainfi.sh'') =
          (case out of
              Response status body \<Rightarrow>
                if 200 \<le> status \<and> status < 300 then
                  Inr \<lparr>success = True, statusCode = status, data = body,
                       uploadedFileName = processedFileName ?p\<rparr>
                else Inl (Error (''Upload failed with status '' @ string_of_nat status
                                 @ '': '' @ body))
            | TransportError msg \<Rightarrow> Inl (Error (''Request failed: '' @ msg)))" for out
    using upload_outcome[OF uploadToBrainfish_sent[OF c u[of out] t b[of out],
          of "''my-catalog''"] o[of out]]
    by blast
  from this[of "Response 201 ''created''"] this[of "Response 500 ''server error''"]
    this[of "Response 301 ''moved''"] this[of "TransportError ''read ECONNRESET''"]
  show ?thesis by (simp add: digit_char_def)
qed

text \<open>
  C5. A path that names no entry of the file system makes \<open>readOASFile\<close> throw the
  error \<open>OAS file not found at path: ...\<close>, and a run on that path sends no request.
\<close>

theorem file_not_found:
  assumes "files w filePath = None"
  shows "readOASFile w filePath =
           ([Info (''Reading OAS file from: '' @ filePath)],
            Inl (Error (''OAS file not found at path: '' @ filePath)))
         \<and> (getInput w ''oas_file_path'' = filePath \<longrightarrow> requests (main w) = [])"
proof -
  have r: "readOASFile w filePath =
           ([Info (''Reading OAS file from: '' @ filePath)],
            Inl (Error (''OAS file not found at path: '' @ filePath)))"
    using assms by (simp add: readOASFile_def)
  then show ?thesis
    using main_body_read_fails[of w] by (auto simp: requests_main)
qed

theorem file_not_found_witness:
  "files world_missing_file ''test/non-existent-file.json'' = None
   \<and> getInput world_missing_file ''oas_file_path'' = ''test/non-existent-file.json''
   \<and> snd (readOASFile world_missing_file ''test/non-existent-file.json'')
       = Inl (Error ''OAS file not found at path: test/non-existent-file.json'')
   \<and> requests (main world_missing_file) = []"
proof -
  have h1: "files world_missing_file ''test/non-existent-file.json'' = None"
    by (simp add: world_missing_file_def world_defs)
  have h2: "getInput world_missing_file ''oas_file_path'' = ''test/non-existent-file.json''"
    by (simp add: world_missing_file_def world_defs)
  from file_not_found[OF h1] h1 h2 show ?thesis by simp
qed

text \<open>
  C6. When js-yaml throws on the content of a file dispatched as YAML,
  \<open>processOASFile\<close> throws \<open>Failed to parse YAML content: \<close> followed by js-yaml's
  message; when \<open>JSON.parse\<close> throws on the content of a file dispatched as JSON, it
  throws \<open>Invalid JSON format: \<close> followed by the parser's message. Either way the
  run sends no request.
\<close>

theorem parse_failures:
  assumes "snd (readOASFile w (getInput w ''oas_file_path'')) = Inr fd"
  shows "((extension fd = ''.yaml'' \<or> extension fd = ''.yml'')
            \<and> yaml_load w (content fd) = Inl msg
          \<longrightarrow> snd (processOASFile w fd)
                = Inl (Error (''Failed to parse YAML content: '' @ msg))
              \<and> requests (main w) = [])
       \<and> (extension fd = ''.json'' \<and> JSON_parse (stringToNumber w) (content fd) = None
          \<longrightarrow> snd (processOASFile w fd)
                = Inl (Error (''Invalid JSON format: '' @ syntaxErrorMessage w (content fd)))
              \<and> requests (main w) = [])"
proof (intro conjI impI)
  assume y: "(extension fd = ''.yaml'' \<or> extension fd = ''.yml'')
               \<and> yaml_load w (content fd) = Inl msg"
  then show p: "snd (processOASFile w fd)
                  = Inl (Error (''Failed to parse YAML content: '' @ msg))"
    by (auto simp: processOASFile_def convertYamlToJson_def)
  from main_body_process_fails[OF assms p] show "requests (main w) = []"
    by (simp add: requests_main)
next
  assume j: "extension fd = ''.json'' \<and> JSON_parse (stringToNumber w) (content fd) = None"
  then show p: "snd (processOASFile w fd)
                  = Inl (Error (''Invalid JSON format: '' @ syntaxErrorMessage w (content fd)))"
    by (simp add: processOASFile_def)
  from main_body_process_fails[OF assms p] show "requests (main w) = []"
    by (simp add: requests_main)
qed

theorem parse_failures_witness:
  "snd (readOASFile world_bad_yaml (getInput world_bad_yaml ''oas_file_path''))
     = Inr \<lparr>content = ''paths: ['', extension = ''.yaml'', fileName = ''api.yaml'',
            size_bytes = 8\<rparr>
   \<and> yaml_load world_bad_yaml ''paths: [''
       = Inl ''unexpected end of the stream within a flow collection''
   \<and> snd (processOASFile world_bad_yaml
            \<lparr>content = ''paths: ['', extension = ''.yaml'', fileName = ''api.yaml'',
             size_bytes = 8\<rparr>)
       = Inl (Error ''Failed to parse YAML content: unexpected end of the stream within a flow collection'')
   \<and> requests (main world_bad_yaml) = []
   \<and> snd (readOASFile world_bad_json (getInput world_bad_json ''oas_file_path''))
       = Inr \<lparr>content = ''[1,]'', extension = ''.json'', fileName = ''openapi.json'',
              size_bytes = 4\<rparr>
   \<and> JSON_parse (stringToNumber world_bad_json) ''[1,]'' = None
   \<and> snd (processOASFile world_bad_json
            \<lparr>content = ''[1,]'', extension = ''.json'', fileName = ''openapi.json'',
             size_bytes = 4\<rparr>)
       = Inl (Error ''Invalid JSON format: Unexpected token in JSON'')
   \<and> requests (main world_bad_json) = []"
proof -
  let ?y = "\<lparr>content = ''paths: ['', extension = ''.yaml'', fileName = ''api.yaml'',
             size_bytes = 8\<rparr>"
  let ?j = "\<lparr>content = ''[1,]'', extension = ''.json'', fileName = ''openapi.json'',
             size_bytes = 4\<rparr>"
  have fy: "files world_bad_yaml ''docs/api.yaml'' = Some (File ''paths: ['')"
    by (simp add: world_bad_yaml_def world_defs)
  have ry: "snd (readOASFile world_bad_yaml (getInput world_bad_yaml ''oas_file_path'')) = Inr ?y"
    using readOASFile_File[OF fy] by (simp add: world_bad_yaml_def world_defs path_defs)
  have ly: "yaml_load world_bad_yaml ''paths: [''
              = Inl ''unexpected end of the stream within a flow collection''"
    by (simp add: yaml_load_def world_bad_yaml_def world_defs sample_documents_def)
  have fj: "files world_bad_json ''openapi.json'' = Some (File ''[1,]'')"
    by (simp add: world_bad_json_def world_defs)
  have rj: "snd (readOASFile world_bad_json (getInput world_bad_json ''oas_file_path'')) = Inr ?j"
    using readOASFile_File[OF fj] by (simp add: world_bad_json_def world_defs path_defs)
  have pj: "JSON_parse (stringToNumber world_bad_json) ''[1,]'' = None"
    by code_simp
  have sj: "syntaxErrorMessage world_bad_json ''[1,]'' = ''Unexpected token in JSON''"
    by (simp add: world_bad_json_def world_defs)
  from parse_failures[OF ry, of "''unexpected end of the stream within a flow collection''"]
    parse_failures[OF rj, of "[]"]
    ry ly rj pj sj
  show ?thesis by simp
qed

text \<open>
  C7. A file whose lower-cased extension is none of \<open>.yaml\<close>, \<open>.yml\<close>, \<open>.json\<close> makes
  \<open>processOASFile\<close> throw an error whose message names the three supported
  extensions, and a run on such a file sends no request.
\<close>

theorem unsupported_format:
  assumes "extension fd \<notin> {''.yaml'', ''.yml'', ''.json''}"
  shows "processOASFile w fd =
           ([], Inl (Error (''Unsupported file format: '' @ extension fd
                            @ ''. Supported formats: .yaml, .yml, .json'')))
         \<and> (snd (readOASFile w (getInput w ''oas_file_path'')) = Inr fd
              \<longrightarrow> requests (main w) = [])"
proof -
  have p: "processOASFile w fd =
           ([], Inl (Error (''Unsupported file format: '' @ extension fd
                            @ ''. Supported formats: .yaml, .yml, .json'')))"
    using assms by (simp add: processOASFile_def)
  then show ?thesis
    using main_body_process_fails[of w fd] by (auto simp: requests_main)
qed

theorem unsupported_format_witness:
  "extension \<lparr>content = ''hello'', extension = ''.txt'', fileName = ''notes.TXT'',
              size_bytes = 5\<rparr> \<notin> {''.yaml'', ''.yml'', ''.json''}
   \<and> snd (readOASFile world_text_file (getInput world_text_file ''oas_file_path''))
       = Inr \<lparr>content = ''hello'', extension = ''.txt'', fileName = ''notes.TXT'',
              size_bytes = 5\<rparr>
   \<and> snd (processOASFile world_text_file
            \<lparr>content = ''hello'', extension = ''.txt'', fileName = ''notes.TXT'',
             size_bytes = 5\<rparr>)
       = Inl (Error ''Unsupported file format: .txt. Supported formats: .yaml, .yml, .json'')
   \<and> requests (main world_text_file) = []"
proof -
  let ?fd = "\<lparr>content = ''hello'', extension = ''.txt'', fileName = ''notes.TXT'',
             size_bytes = 5\<rparr>"
  have h1: "extension ?fd \<notin> {''.yaml'', ''.yml'', ''.json''}" by simp
  have f: "files world_text_file ''notes.TXT'' = Some (File ''hello'')"
    by (simp add: world_text_file_def world_defs)
  have h2: "snd (readOASFile world_text_file (getInput world_text_file ''oas_file_path''))
              = Inr ?fd"
    using readOASFile_File[OF f] by (simp add: world_text_file_def world_defs path_defs)
  from unsupported_format[OF h1, of world_text_file] h1 h2 show ?thesis by simp
qed

text \<open>
  C8, as amended. For a payload that has a text, a base URL that \<open>new URL\<close> accepts,
  and a token that \<open>https.request\<close> accepts in a header value (tabs, and the
  characters from U+0020 to U+00FF except U+007F, as is the multipart boundary that the
  form generates), \<open>uploadToBrainfish\<close> makes exactly one request: a POST to the base URL's
  host, with the path \<open>/api/catalogs.upload?catalogId=\<close> followed by the catalog
  identifier percent-encoded as \<open>encodeURIComponent\<close> does (which leaves an identifier
  of unreserved characters as it is), the multipart content type, the header
  \<open>Authorization: Bearer <token>\<close>, and one part named \<open>file\<close> of content type
  \<open>application/json\<close> whose filename is the payload's file name and whose body is the
  payload's text.
\<close>

theorem upload_request:
  assumes "processedContent fd = Some jsonText" and "parseURL w baseUrl = Some u"
    and "latin1_text header_char apiToken" and "latin1_text header_char (boundary w)"
  shows "requests (fst (uploadToBrainfish w fd apiToken catalogId baseUrl)) =
           [\<lparr>req_method = ''POST'',
             hostname = url_hostname u,
             port = (if url_port u \<noteq> [] then url_port u
                     else if protocol u = ''https:'' then ''443'' else ''80''),
             path = ''/api/catalogs.upload?catalogId='' @ encodeURIComponent catalogId,
             headers = [(''content-type'', ''multipart/form-data; boundary='' @ boundary w),
                        (''Authorization'', ''Bearer '' @ apiToken)],
             form = [\<lparr>field = ''file'', filename = processedFileName fd,
                      contentType = ''application/json'', part_body = jsonText\<rparr>]\<rparr>]
         \<and> ((\<forall>c \<in> set catalogId. uri_unreserved c)
              \<longrightarrow> encodeURIComponent catalogId = catalogId)"
  using uploadToBrainfish_sent[OF assms] encodeURIComponent_unreserved
  by simp

theorem upload_request_witness:
  "processedContent
     \<lparr>content = ''{ }'', extension = ''.json'', fileName = ''api-spec.JSON'',
      size_bytes = 3, processedContent = Some ''{ }'',
      processedFileName = ''api-spec.JSON''\<rparr> = Some ''{ }''
   \<and> parseURL (world_json (Response 201 ''created'')) ''http://localhost:8080''
       = Some \<lparr>protocol = ''http:'', url_hostname = ''localhost'', url_port = ''8080''\<rparr>
   \<and> latin1_text header_char ''secret''
   \<and> latin1_text header_char (boundary (world_json (Response 201 ''created'')))
   \<and> list_all uri_unreserved ''8a2abadd-1140-4f40-921c-e4a30c6a8238''
   \<and> encodeURIComponent ''8a2abadd-1140-4f40-921c-e4a30c6a8238''
       = ''8a2abadd-1140-4f40-921c-e4a30c6a8238''
   \<and> requests (fst (uploadToBrainfish (world_json (Response 201 ''created''))
          \<lparr>content = ''{ }'', extension = ''.json'', fileName = ''api-spec.JSON'',
           size_bytes = 3, processedContent = Some ''{ }'',
           processedFileName = ''api-spec.JSON''\<rparr>
          ''secret'' ''8a2abadd-1140-4f40-921c-e4a30c6a8238'' ''http://localhost:8080''))
     = [\<lparr>req_method = ''POST'', hostname = ''localhost'', port = ''8080'',
         path = ''/api/catalogs.upload?catalogId=8a2abadd-1140-4f40-921c-e4a30c6a8238'',
         headers = [(''content-type'',
                     ''multipart/form-data; boundary=--------------------------000000000000000000000000''),
                    (''Authorization'', ''Bearer secret'')],
         form = [\<lparr>field = ''file'', filename = ''api-spec.JSON'',
                  contentType = ''application/json'', part_body = ''{ }''\<rparr>]\<rparr>]"
proof -
  let ?p = "\<lparr>content = ''{ }'', extension = ''.json'', fileName = ''api-spec.JSON'',
             size_bytes = 3, processedContent = Some ''{ }'',
             processedFileName = ''api-spec.JSON''\<rparr>"
  let ?w = "world_json (Response 201 ''created'')"
  have h1: "processedContent ?p = Some ''{ }''" by simp
  have h2: "parseURL ?w ''http://localhost:8080''
              = Some \<lparr>protocol = ''http:'', url_hostname = ''localhost'', url_port = ''8080''\<rparr>"
    by (simp add: world_json_def world_defs sample_url_def)
  have h3: "latin1_text header_char ''secret''"
    by (simp add: header_char_def is_ascii_def in_range_def)
  have h4: "latin1_text header_char (boundary ?w)"
    unfolding world_json_def by (rule sample_world_inputs(7))
  have h5: "list_all uri_unreserved ''8a2abadd-1140-4f40-921c-e4a30c6a8238''"
    by (simp add: uri_unreserved_def)
  have b: "boundary ?w = ''--------------------------000000000000000000000000''"
    by (simp add: world_json_def world_defs)
  note t = upload_request[OF h1 h2 h3 h4, of "''8a2abadd-1140-4f40-921c-e4a30c6a8238''"]
  have e: "encodeURIComponent ''8a2abadd-1140-4f40-921c-e4a30c6a8238''
             = ''8a2abadd-1140-4f40-921c-e4a30c6a8238''"
    using t h5 by (simp add: list_all_iff)
  have r: "requests (fst (uploadToBrainfish ?w ?p ''secret''
             ''8a2abadd-1140-4f40-921c-e4a30c6a8238'' ''http://localhost:8080''))
     = [\<lparr>req_method = ''POST'', hostname = ''localhost'', port = ''8080'',
         path = ''/api/catalogs.upload?catalogId=8a2abadd-1140-4f40-921c-e4a30c6a8238'',
         headers = [(''content-type'',
                     ''multipart/form-data; boundary=--------------------------000000000000000000000000''),
                    (''Authorization'', ''Bearer secret'')],
         form = [\<lparr>field = ''file'', filename = ''api-spec.JSON'',
                  contentType = ''application/json'', part_body = ''{ }''\<rparr>]\<rparr>]"
    using t by (simp add: e b)
  show ?thesis
    by (intro conjI) (fact h1 h2 h3 h4 h5 e r)+
qed

theorem upload_request_counterexample:
  "map path (requests (fst (uploadToBrainfish (world_json (Response 201 ''created''))
          \<lparr>content = ''{ }'', extension = ''.json'', fileName = ''api-spec.JSON'',
           size_bytes = 3, processedContent = Some ''{ }'',
           processedFileName = ''api-spec.JSON''\<rparr>
          ''secret'' ''docs & guides'' ''https://app.brainfi.sh'')))
     = [''/api/catalogs.upload?catalogId=docs%20%26%20guides'']
   \<and> ''/api/catalogs.upload?catalogId=docs%20%26%20guides''
       \<noteq> ''/api/catalogs.upload?catalogId='' @ ''docs & guides''
   \<and> uploadToBrainfish (world_json (Response 201 ''created''))
          \<lparr>content = ''{ }'', extension = ''.json'', fileName = ''api-spec.JSON'',
           size_bytes = 3, processedContent = Some ''{ }'',
           processedFileName = ''api-spec.JSON''\<rparr>
          ''secret'' ''my-catalog'' ''app.brainfi.sh''
     = ([Info ''Uploading api-spec.JSON to Brainfish catalog: my-catalog''],
        Inl (TypeError ''Invalid URL''))
   \<and> requests (fst (uploadToBrainfish (world_json (Response 201 ''created''))
          \<lparr>content = ''{ }'', extension = ''.json'', fileName = ''api-spec.JSON'',
           size_bytes = 3, processedContent = Some ''{ }'',
           processedFileName = ''api-spec.JSON''\<rparr>
          (''sec'' @ [NL] @ ''ret'') ''my-catalog'' ''https://app.brainfi.sh'')) = []
   \<and> snd (uploadToBrainfish (world_json (Response 201 ''created''))
          \<lparr>content = ''{ }'', extension = ''.json'', fileName = ''api-spec.JSON'',
           size_bytes = 3, processedContent = Some ''{ }'',
           processedFileName = ''api-spec.JSON''\<rparr>
          (''sec'' @ [NL] @ ''ret'') ''my-catalog'' ''https://app.brainfi.sh'')
     = Inl (TypeError (''Invalid character in header content ['' @ [DQ] @ ''Authorization''
                       @ [DQ] @ '']''))
   \<and> requests (main world_two_line_token) = []"
proof -
  let ?w = "world_json (Response 201 ''created'')"
  let ?fd = "\<lparr>content = ''{ }'', extension = ''.json'', fileName = ''api-spec.JSON'',
              size_bytes = 3\<rparr>"
  let ?p = "\<lparr>content = ''{ }'', extension = ''.json'', fileName = ''api-spec.JSON'',
             size_bytes = 3, processedContent = Some ''{ }'',
             processedFileName = ''api-spec.JSON''\<rparr>"
  have c: "processedContent ?p = Some ''{ }''" by simp
  have u: "parseURL ?w ''https://app.brainfi.sh''
             = Some \<lparr>protocol = ''https:'', url_hostname = ''app.brainfi.sh'',
                     url_port = []\<rparr>"
    by (simp add: world_json_def sample_world_fields sample_url_def)
  have t: "latin1_text header_char ''secret''"
    by (simp add: header_char_def is_ascii_def in_range_def)
  have b: "latin1_text header_char (boundary ?w)"
    unfolding world_json_def by (rule sample_world_inputs(7))
  have e: "encodeURIComponent ''docs & guides'' = ''docs%20%26%20guides''"
    by (simp add: uri_defs)
  have 1: "map path (requests (fst (uploadToBrainfish ?w ?p ''secret'' ''docs & guides''
                                      ''https://app.brainfi.sh'')))
             = [''/api/catalogs.upload?catalogId=docs%20%26%20guides'']"
    unfolding uploadToBrainfish_sent[OF c u t b] by (simp add: e)
  have 2: "''/api/catalogs.upload?catalogId=docs%20%26%20guides''
             \<noteq> ''/api/catalogs.upload?catalogId='' @ ''docs & guides''"
    by simp
  have 3: "uploadToBrainfish ?w ?p ''secret'' ''my-catalog'' ''app.brainfi.sh''
     = ([Info ''Uploading api-spec.JSON to Brainfish catalog: my-catalog''],
        Inl (TypeError ''Invalid URL''))"
    by (simp add: uploadToBrainfish_def and_then_def sample_payload_defs)
  have n: "\<not> latin1_text header_char (''sec'' @ [NL] @ ''ret'')"
    by (simp add: header_char_def is_ascii_def in_range_def)
  note x = uploadToBrainfish_refused[OF c u n b, of "''my-catalog''"]
  have 4: "requests (fst (uploadToBrainfish ?w ?p (''sec'' @ [NL] @ ''ret'') ''my-catalog''
                            ''https://app.brainfi.sh'')) = []
           \<and> snd (uploadToBrainfish ?w ?p (''sec'' @ [NL] @ ''ret'') ''my-catalog''
                    ''https://app.brainfi.sh'')
             = Inl (TypeError (''Invalid character in header content ['' @ [DQ]
                               @ ''Authorization'' @ [DQ] @ '']''))"
    using x by simp
  have i: "getInput world_two_line_token ''brainfish_api_token'' = ''sec'' @ [NL] @ ''ret''"
    "getInput world_two_line_token ''catalog_id'' = ''8a2abadd-1140-4f40-921c-e4a30c6a8238''"
    "getInput world_two_line_token ''oas_file_path'' = ''test/api-spec.JSON''"
    by (simp_all add: world_two_line_token_def sample_world_def)
  have f: "files world_two_line_token ''test/api-spec.JSON'' = Some (File ''{ }'')"
    by (simp add: world_two_line_token_def sample_world_def)
  have r: "snd (readOASFile world_two_line_token
                  (getInput world_two_line_token ''oas_file_path'')) = Inr ?fd"
    using readOASFile_File[OF f] by (simp add: i path_defs world_two_line_token_def
        sample_world_def)
  have j: "JSON_parse (stringToNumber world_two_line_token) ''{ }'' = Some (JObj [])"
    by code_simp
  have p: "snd (processOASFile world_two_line_token ?fd) = Inr ?p"
    using processOASFile_json[of ?fd world_two_line_token] j by (simp add: processed_defs)
  have u2: "parseURL world_two_line_token (baseUrl_input world_two_line_token)
              = Some \<lparr>protocol = ''https:'', url_hostname = ''app.brainfi.sh'',
                      url_port = []\<rparr>"
    by (simp add: baseUrl_input_def world_two_line_token_def sample_world_def sample_url_def)
  have n2: "\<not> latin1_text header_char (getInput world_two_line_token ''brainfish_api_token'')"
    unfolding i by (rule n)
  have b2: "latin1_text header_char (boundary world_two_line_token)"
    by (simp add: world_two_line_token_def sample_world_def header_char_def is_ascii_def
        in_range_def)
  have "requests (fst (uploadToBrainfish world_two_line_token ?p
                         (getInput world_two_line_token ''brainfish_api_token'')
                         (getInput world_two_line_token ''catalog_id'')
                         (baseUrl_input world_two_line_token))) = []"
    by (rule uploadToBrainfish_refused(1)[OF c u2 n2 b2])
  then have 5: "requests (main world_two_line_token) = []"
    using main_body_uploads(1)[OF _ _ _ r p] by (simp add: i requests_main)
  show ?thesis
    using 1 2 3 4 5 by blast
qed

text \<open>
  C9. When any stage of a run throws, \<open>main\<close> logs the error's message at error
  level, signals failure with that message, and sets no output. When no stage throws,
  the promise resolved on a status of at least 200 and below 300, and the outputs
  \<open>status\<close> and \<open>uploaded_file\<close> are set.
\<close>

theorem failure_handling:
  "(snd (main_body w) = Inl e
      \<longrightarrow> main w = fst (main_body w)
                     @ [ErrorLog (cross_mark @ '' Error: '' @ message e),
                        SetFailed (message e)]
          \<and> outputs (main w) = [])
   \<and> (snd (main_body w) = Inr r
      \<longrightarrow> 200 \<le> statusCode r \<and> statusCode r < 300
          \<and> outputs (main w)
            = [(''status'', check_mark @ '' OAS file successfully synced to Brainfish!''),
               (''uploaded_file'', uploadedFileName r)])"
proof (intro conjI impI)
  assume f: "snd (main_body w) = Inl e"
  then show m: "main w = fst (main_body w)
                     @ [ErrorLog (cross_mark @ '' Error: '' @ message e),
                        SetFailed (message e)]"
    by (cases "main_body w") (simp add: main_def)
  show "outputs (main w) = []"
    unfolding m by (simp add: outputs_append main_body_outputs)
next
  assume s: "snd (main_body w) = Inr r"
  then show "200 \<le> statusCode r" and "statusCode r < 300"
    using main_body_resolved by blast+
  from s show "outputs (main w)
            = [(''status'', check_mark @ '' OAS file successfully synced to Brainfish!''),
               (''uploaded_file'', uploadedFileName r)]"
    using main_body_outputs[of w]
    by (cases "main_body w") (simp add: main_def outputs_append)
qed

theorem failure_handling_witness:
  "snd (main_body (world_json (Response 500 ''server error'')))
     = Inl (Error ''Upload failed with status 500: server error'')
   \<and> outputs (main (world_json (Response 500 ''server error''))) = []
   \<and> snd (main_body world_missing_file)
     = Inl (Error ''OAS file not found at path: test/non-existent-file.json'')
   \<and> main world_missing_file
     = fst (main_body world_missing_file)
       @ [ErrorLog (cross_mark @ '' Error: OAS file not found at path: test/non-existent-file.json''),
          SetFailed ''OAS file not found at path: test/non-existent-file.json'']
   \<and> outputs (main world_missing_file) = []
   \<and> snd (main_body (world_json (Response 201 ''created'')))
     = Inr \<lparr>success = True, statusCode = 201, data = ''created'',
            uploadedFileName = ''api-spec.JSON''\<rparr>
   \<and> outputs (main (world_json (Response 201 ''created'')))
     = [(''status'', check_mark @ '' OAS file successfully synced to Brainfish!''),
        (''uploaded_file'', ''api-spec.JSON'')]"
proof -
  have r: "snd (readOASFile (world_json out) (getInput (world_json out) ''oas_file_path''))
             = Inr \<lparr>content = ''{ }'', extension = ''.json'', fileName = ''api-spec.JSON'',
                    size_bytes = 3\<rparr>" for out
    unfolding world_json_def
    by (subst sample_world_read[where bytes = "''{ }''"]) (simp_all add: path_defs)
  have j: "JSON_parse (stringToNumber (world_json out)) ''{ }'' = Some (JObj [])" for out
    by code_simp
  have p: "snd (processOASFile (world_json out)
                  \<lparr>content = ''{ }'', extension = ''.json'', fileName = ''api-spec.JSON'',
                   size_bytes = 3\<rparr>)
             = Inr \<lparr>content = ''{ }'', extension = ''.json'', fileName = ''api-spec.JSON'',
                    size_bytes = 3, processedContent = Some ''{ }'',
                    processedFileName = ''api-spec.JSON''\<rparr>" for out
    using processOASFile_json[of "\<lparr>content = ''{ }'', extension = ''.json'',
        fileName = ''api-spec.JSON'', size_bytes = 3\<rparr>" "world_json out"] j[of out]
    by (simp add: processed_defs)
  have pc: "processedContent \<lparr>content = ''{ }'', extension = ''.json'',
              fileName = ''api-spec.JSON'', size_bytes = 3, processedContent = Some ''{ }'',
              processedFileName = ''api-spec.JSON''\<rparr> = Some ''{ }''"
    by simp
  have ne: "''test/api-spec.JSON'' \<noteq> []" by simp
  have b: "snd (main_body (world_json out)) =
             snd (settle \<lparr>content = ''{ }'', extension = ''.json'',
                          fileName = ''api-spec.JSON'', size_bytes = 3,
                          processedContent = Some ''{ }'',
                          processedFileName = ''api-spec.JSON''\<rparr> out)" for out
    using sample_run(2)[OF ne r[of out, unfolded world_json_def]
        p[of out, unfolded world_json_def] pc]
    by (simp add: world_json_def)
  have b500: "snd (main_body (world_json (Response 500 ''server error'')))
                = Inl (Error ''Upload failed with status 500: server error'')"
    unfolding b by (simp add: settle_result digit_char_def)
  have b201: "snd (main_body (world_json (Response 201 ''created'')))
                = Inr \<lparr>success = True, statusCode = 201, data = ''created'',
                       uploadedFileName = ''api-spec.JSON''\<rparr>"
    unfolding b by (simp add: settle_result)
  have f: "files world_missing_file (getInput world_missing_file ''oas_file_path'') = None"
    "getInput world_missing_file ''brainfish_api_token'' \<noteq> []"
    "getInput world_missing_file ''catalog_id'' \<noteq> []"
    "getInput world_missing_file ''oas_file_path'' = ''test/non-existent-file.json''"
    by (simp_all add: world_missing_file_def world_defs)
  have bm: "snd (main_body world_missing_file)
              = Inl (Error ''OAS file not found at path: test/non-existent-file.json'')"
    using f by (simp add: main_body_def Let_def and_then_def readOASFile_def)
  note t500 = failure_handling[of "world_json (Response 500 ''server error'')"
      "Error ''Upload failed with status 500: server error''" undefined,
      THEN conjunct1, rule_format, OF b500]
  note tm = failure_handling[of world_missing_file
      "Error ''OAS file not found at path: test/non-existent-file.json''" undefined,
      THEN conjunct1, rule_format, OF bm]
  note t201 = failure_handling[of "world_json (Response 201 ''created'')" undefined
      "\<lparr>success = True, statusCode = 201, data = ''created'',
        uploadedFileName = ''api-spec.JSON''\<rparr>",
      THEN conjunct2, rule_format, OF b201]
  have o500: "outputs (main (world_json (Response 500 ''server error''))) = []"
    using t500 by blast
  have mm: "main world_missing_file
     = fst (main_body world_missing_file)
       @ [ErrorLog (cross_mark @ '' Error: OAS file not found at path: test/non-existent-file.json''),
          SetFailed ''OAS file not found at path: test/non-existent-file.json'']"
    using tm[THEN conjunct1] by simp
  have om: "outputs (main world_missing_file) = []"
    using tm by blast
  have o201: "outputs (main (world_json (Response 201 ''created'')))
     = [(''status'', check_mark @ '' OAS file successfully synced to Brainfish!''),
        (''uploaded_file'', ''api-spec.JSON'')]"
    using t201[THEN conjunct2, THEN conjunct2] by simp
  show ?thesis
    by (intro conjI) (fact b500 o500 bm mm om b201 o201)+
qed

text \<open>
  C10, as amended. When js-yaml finds no document in the content of a \<open>.yaml\<close> or
  \<open>.yml\<close> file (an empty file), \<open>convertYamlToJson\<close> throws nothing and returns
  \<open>undefined\<close>; \<open>processOASFile\<close> succeeds with that \<open>undefined\<close> as content; the
  failure comes in \<open>uploadToBrainfish\<close>, where \<open>Buffer.from\<close> throws a TypeError
  before any request is made.
\<close>

theorem empty_yaml_document:
  assumes "loadDocuments w (content fd) = Inr []"
    and "extension fd = ''.yaml'' \<or> extension fd = ''.yml''"
  shows "convertYamlToJson w (content fd) = Inr None
         \<and> snd (processOASFile w fd)
           = Inr (file_data.extend fd
                    (processed_file_data.fields None (replace_yaml_ext (fileName fd))))
         \<and> snd (uploadToBrainfish w
                  (file_data.extend fd
                     (processed_file_data.fields None (replace_yaml_ext (fileName fd))))
                  apiToken catalogId baseUrl)
           = Inl (TypeError buffer_type_error)
         \<and> requests (fst (uploadToBrainfish w
                  (file_data.extend fd
                     (processed_file_data.fields None (replace_yaml_ext (fileName fd))))
                  apiToken catalogId baseUrl)) = []"
proof -
  let ?p = "file_data.extend fd
              (processed_file_data.fields None (replace_yaml_ext (fileName fd)))"
  have c: "convertYamlToJson w (content fd) = Inr None"
    using assms(1) by (simp add: convertYamlToJson_def yaml_load_def JSON_stringify_def)
  have p: "snd (processOASFile w fd) = Inr ?p"
    using assms(2) c by (auto simp: processOASFile_def)
  have "processedContent ?p = None" by (simp add: processed_defs)
  then have q: "snd (requestOptions w ?p apiToken catalogId baseUrl)
                  = Inl (TypeError buffer_type_error)"
    by (simp add: requestOptions_def)
  have "fst (uploadToBrainfish w ?p apiToken catalogId baseUrl)
          = fst (requestOptions w ?p apiToken catalogId baseUrl)"
    and u: "snd (uploadToBrainfish w ?p apiToken catalogId baseUrl)
          = Inl (TypeError buffer_type_error)"
    using q by (simp_all add: uploadToBrainfish_def and_then_def)
  then have "requests (fst (uploadToBrainfish w ?p apiToken catalogId baseUrl)) = []"
    using requestOptions_quiet[of w ?p apiToken catalogId baseUrl] by simp
  with c p u show ?thesis by simp
qed

theorem empty_yaml_document_witness:
  "loadDocuments world_empty_yaml [] = Inr []
   \<and> snd (readOASFile world_empty_yaml ''docs/api.yml'')
       = Inr \<lparr>content = [], extension = ''.yml'', fileName = ''api.yml'', size_bytes = 0\<rparr>
   \<and> convertYamlToJson world_empty_yaml [] = Inr None
   \<and> snd (processOASFile world_empty_yaml
            \<lparr>content = [], extension = ''.yml'', fileName = ''api.yml'', size_bytes = 0\<rparr>)
       = Inr \<lparr>content = [], extension = ''.yml'', fileName = ''api.yml'', size_bytes = 0,
              processedContent = None, processedFileName = ''api.json''\<rparr>
   \<and> snd (uploadToBrainfish world_empty_yaml
            \<lparr>content = [], extension = ''.yml'', fileName = ''api.yml'', size_bytes = 0,
             processedContent = None, processedFileName = ''api.json''\<rparr>
            ''secret'' ''8a2abadd-1140-4f40-921c-e4a30c6a8238'' ''https://app.brainfi.sh'')
       = Inl (TypeError buffer_type_error)
   \<and> requests (main world_empty_yaml) = []"
proof -
  let ?fd = "\<lparr>content = [], extension = ''.yml'', fileName = ''api.yml'', size_bytes = 0\<rparr>"
  let ?p = "\<lparr>content = [], extension = ''.yml'', fileName = ''api.yml'', size_bytes = 0,
             processedContent = None, processedFileName = ''api.json''\<rparr>"
  have h1: "loadDocuments world_empty_yaml (content ?fd) = Inr []"
    by (simp add: world_empty_yaml_def world_defs sample_documents_def)
  have h2: "extension ?fd = ''.yaml'' \<or> extension ?fd = ''.yml''" by simp
  have f: "files world_empty_yaml ''docs/api.yml'' = Some (File [])"
    by (simp add: world_empty_yaml_def world_defs)
  have r: "snd (readOASFile world_empty_yaml ''docs/api.yml'') = Inr ?fd"
    using readOASFile_File[OF f] by (simp add: path_defs)
  have e: "file_data.extend ?fd
             (processed_file_data.fields None (replace_yaml_ext (fileName ?fd))) = ?p"
    by (simp add: processed_defs replace_yaml_ext_def endsWith_def)
  note t = empty_yaml_document[OF h1 h2, of "''secret''"
      "''8a2abadd-1140-4f40-921c-e4a30c6a8238''" "''https://app.brainfi.sh''", unfolded e]
  have i: "getInput world_empty_yaml ''brainfish_api_token'' = ''secret''"
    "getInput world_empty_yaml ''catalog_id'' = ''8a2abadd-1140-4f40-921c-e4a30c6a8238''"
    "getInput world_empty_yaml ''oas_file_path'' = ''docs/api.yml''"
    "baseUrl_input world_empty_yaml = ''https://app.brainfi.sh''"
    by (simp_all add: baseUrl_input_def world_empty_yaml_def world_defs)
  have "requests (main world_empty_yaml) = []"
    using main_body_uploads(1)[of world_empty_yaml ?fd ?p] r t i
    by (simp add: requests_main)
  with t h1 r show ?thesis by simp
qed

text \<open>
  A file that holds only a comment is not such a file: js-yaml reads it as one document,
  \<open>null\<close>, and the run uploads the JSON text \<open>null\<close> under the name \<open>api.json\<close>.
\<close>

theorem empty_yaml_document_counterexample:
  "snd (readOASFile world_comment_yaml (getInput world_comment_yaml ''oas_file_path''))
     = Inr \<lparr>content = ''# to be written'', extension = ''.yaml'', fileName = ''api.yaml'',
            size_bytes = 15\<rparr>
   \<and> loadDocuments world_comment_yaml ''# to be written'' = Inr [JNull]
   \<and> convertYamlToJson world_comment_yaml ''# to be written'' = Inr (Some ''null'')
   \<and> JSON_parse (stringToNumber world_comment_yaml) ''null'' = Some JNull
   \<and> map (map part_body \<circ> form) (requests (main world_comment_yaml)) = [[''null'']]
   \<and> outputs (main world_comment_yaml)
     = [(''status'', check_mark @ '' OAS file successfully synced to Brainfish!''),
        (''uploaded_file'', ''api.json'')]"
proof -
  let ?fd = "\<lparr>content = ''# to be written'', extension = ''.yaml'', fileName = ''api.yaml'',
              size_bytes = 15\<rparr>"
  let ?p = "\<lparr>content = ''# to be written'', extension = ''.yaml'', fileName = ''api.yaml'',
             size_bytes = 15, processedContent = Some ''null'',
             processedFileName = ''api.json''\<rparr>"
  have r: "snd (readOASFile world_comment_yaml (getInput world_comment_yaml ''oas_file_path''))
             = Inr ?fd"
    unfolding world_comment_yaml_def
    by (subst sample_world_read[where bytes = "''# to be written''"])
       (simp_all add: path_defs)
  have l: "loadDocuments world_comment_yaml ''# to be written'' = Inr [JNull]"
    by (simp add: world_comment_yaml_def sample_world_fields sample_documents_def)
  have c: "convertYamlToJson world_comment_yaml ''# to be written'' = Inr (Some ''null'')"
    using l by (simp add: convertYamlToJson_def yaml_load_def JSON_stringify_def)
  have j: "JSON_parse (stringToNumber world_comment_yaml) ''null'' = Some JNull"
    by code_simp
  have p: "snd (processOASFile world_comment_yaml ?fd) = Inr ?p"
    using c by (simp add: processOASFile_def processed_defs replace_yaml_ext_def endsWith_def)
  have pc: "processedContent ?p = Some ''null''" by simp
  have ne: "''docs/api.yaml'' \<noteq> []" by simp
  note run = sample_run[OF ne r[unfolded world_comment_yaml_def]
      p[unfolded world_comment_yaml_def] pc, folded world_comment_yaml_def]
  have q: "map (map part_body \<circ> form) (requests (main world_comment_yaml)) = [[''null'']]"
    unfolding run(1) by simp
  have "snd (main_body world_comment_yaml)
          = Inr \<lparr>success = True, statusCode = 201, data = ''ok'',
                 uploadedFileName = ''api.json''\<rparr>"
    unfolding run(2) by (simp add: settle_result)
  from main_outputs_resolved[OF this]
  have o: "outputs (main world_comment_yaml)
     = [(''status'', check_mark @ '' OAS file successfully synced to Brainfish!''),
        (''uploaded_file'', ''api.json'')]"
    by simp
  show ?thesis
    by (intro conjI) (fact r l c j q o)+
qed

end
